theory Spec2Isabelle
  imports Main "HOL-Library.Sublist"
begin

section \<open>Data model of msgraph/client.go\<close>

text \<open>
  Byte slices and Go strings are lists of bytes. Durations are \<open>int64\<close> nanoseconds and
  status codes are Go \<open>int\<close>s; both are modelled as \<open>int\<close>: the only arithmetic the
  client does on them is \<open>1s * 2^m\<close>, where \<open>m\<close> counts attempts of which there are at
  most ten, and that stays far below \<open>2^63\<close> (lemma \<open>default_backoff_int64\<close>).
\<close>

type_synonym bytes = string

text \<open>\<open>http.Header\<close> and \<open>url.Values\<close>: a map from (canonical) keys to lists of values.\<close>

type_synonym header = "(string \<times> string list) list"

datatype errText = ODataErrorText string | ResponseText bytes

datatype error =
    ExternalError string
  | ReadingRequestBody error
  | UnexpectedStatusNoBody int
  | UnexpectedStatus int errText
  | UnableToMakeRequest error
  | CouldNotParseResponseBody
  | NilPointerPanic

text \<open>
  An \<open>io.ReadCloser\<close>: a stream that yields its bytes, a stream whose read fails, or a
  stream that has been read to the end and closed.
\<close>

datatype body = Readable bytes | Unreadable error | Closed

text \<open>
  \<open>url.URL\<close>, with the components that the client sets (\<open>Path\<close>, \<open>RawQuery\<close>) and those
  that tell one request from another.
\<close>

record url =
  Scheme :: string
  Opaque :: string
  Host :: string
  Path :: string
  RawQuery :: string
  Fragment :: string

record request =
  ReqMethod :: string
  ReqURL :: url
  ReqHeader :: header
  ReqBody :: "body option"

record response =
  StatusCode :: int
  Header :: header
  Body :: body

text \<open>
  \<open>odata.OData\<close>, the decoded envelope. The client reads \<open>NextLink\<close>, \<open>Value\<close> and
  \<open>Error\<close> (through \<open>Error.String()\<close>, kept here as the rendered text); every other field
  of the envelope is carried in \<open>Metadata\<close>.
\<close>

record OData =
  NextLink :: "string option"
  Value :: "bytes list option"
  Error :: "string option"
  Metadata :: "(string \<times> bytes) list"

text \<open>What the client does to the outside world, in order.\<close>

datatype event = Sleep int | Send request

type_synonym ConsistencyFailureFunc = "response \<Rightarrow> OData option \<Rightarrow> bool"
type_synonym ValidStatusFunc = "response \<Rightarrow> OData option \<Rightarrow> bool"

text \<open>The interface \<open>HttpRequestInput\<close>: its three getters are the three fields.\<close>

record HttpRequestInput =
  ConsistencyFailureFunc :: "ConsistencyFailureFunc option"
  ValidStatusCodes :: "int list"
  ValidStatusFunc :: "ValidStatusFunc option"

record Uri =
  Entity :: string
  Params :: "header option"
  HasTenantId :: bool

record GetHttpRequestInput = HttpRequestInput +
  DisablePaging :: bool
  Uri :: Uri
  rawUri :: string

text \<open>
  \<open>Client\<close>. \<open>Authorizer\<close> is \<open>None\<close> for a nil authorizer, and otherwise what
  \<open>Token()\<close> returns: an error, or a token (kept as the value of the Authorization header
  it sets). \<open>HttpClient\<close> is the transport's \<open>Do\<close>: the answer to a request may depend
  on everything the client did before.
\<close>

record Client =
  Endpoint :: string
  ApiVersion :: string
  TenantId :: string
  UserAgent :: string
  Authorizer :: "(error + string) option"
  DisableRetries :: bool
  HttpClient :: "event list \<Rightarrow> request \<Rightarrow> error + response"

text \<open>
  The functions of the Go standard library and of package \<open>odata\<close> that the client calls
  and whose code is not part of \<open>client.go\<close>. A \<open>float64\<close> is a value of type \<open>'f\<close>:
  \<open>ParseFloat s\<close> is \<open>strconv.ParseFloat(s, 64)\<close> (\<open>None\<close> when it returns an error),
  \<open>float_gt_zero r\<close> is \<open>r > 0\<close> and \<open>float_to_nanos r\<close> is
  \<open>int64(r * float64(time.Second))\<close>. \<open>FromResponse\<close> returns the response as it leaves
  it, the envelope and the error.
\<close>

record 'f library =
  ParseFloat :: "string \<Rightarrow> 'f option"
  float_gt_zero :: "'f \<Rightarrow> bool"
  float_to_nanos :: "'f \<Rightarrow> int"
  ToLower :: "string \<Rightarrow> string"
  url_Parse :: "string \<Rightarrow> error + url"
  url_String :: "url \<Rightarrow> string"
  Values_Encode :: "header \<Rightarrow> string"
  FromResponse :: "response \<Rightarrow> response \<times> OData option \<times> error option"
  json_Unmarshal :: "bytes \<Rightarrow> error + OData"
  json_Marshal :: "OData \<Rightarrow> error + bytes"

text \<open>The four results of every operation: \<open>(*http.Response, int, *odata.OData, error)\<close>.\<close>

type_synonym result = "response option \<times> int \<times> OData option \<times> error option"

section \<open>Constants and helpers\<close>

definition Second :: int where
  "Second = 1000000000"

definition retryBackoffInitialDelay :: int where
  "retryBackoffInitialDelay = 1 * Second"

definition retryBackoffDelayCap :: int where
  "retryBackoffDelayCap = 64 * Second"

definition requestAttemptsForRateLimiting :: int where
  "requestAttemptsForRateLimiting = 10"

definition requestAttemptsForConsistency :: int where
  "requestAttemptsForConsistency = 6"

definition RetryOn404ConsistencyFailureFunc :: ConsistencyFailureFunc where
  "RetryOn404ConsistencyFailureFunc resp od = (StatusCode resp = 404)"

text \<open>\<open>Header.Get\<close>: the first value of the key, or the empty string.\<close>

definition hget :: "header \<Rightarrow> string \<Rightarrow> string" where
  "hget h k = (case map_of h k of None \<Rightarrow> [] | Some [] \<Rightarrow> [] | Some (v # vs) \<Rightarrow> v)"

text \<open>\<open>Header.Add\<close> appends a value to the key's list, \<open>Header.Set\<close> replaces the list.\<close>

definition hadd :: "header \<Rightarrow> string \<Rightarrow> string \<Rightarrow> header" where
  "hadd h k v = (case map_of h k of
      None \<Rightarrow> h @ [(k, [v])]
    | Some vs \<Rightarrow> map (\<lambda>(k', vs'). if k' = k then (k', vs' @ [v]) else (k', vs')) h)"

definition hset :: "header \<Rightarrow> string \<Rightarrow> string \<Rightarrow> header" where
  "hset h k v = (case map_of h k of
      None \<Rightarrow> h @ [(k, [v])]
    | Some vs \<Rightarrow> map (\<lambda>(k', vs'). if k' = k then (k', [v]) else (k', vs')) h)"

definition ReadAll :: "body \<Rightarrow> error + bytes" where
  "ReadAll b = (case b of
      Readable bs \<Rightarrow> Inr bs
    | Unreadable e \<Rightarrow> Inl e
    | Closed \<Rightarrow> Inl (ExternalError ''read on closed body''))"

fun containsStatusCode :: "int list \<Rightarrow> int \<Rightarrow> bool" where
  "containsStatusCode [] actual = False"
| "containsStatusCode (v # expected) actual =
     (if actual = v then True else containsStatusCode expected actual)"

function backoffPower :: "int \<Rightarrow> int \<Rightarrow> int" where
  "backoffPower base ex = (if ex \<le> 1 then base else base * backoffPower base (ex - 1))"
  by pat_completeness auto
termination
  by (relation "measure (\<lambda>(base, ex). nat ex)") auto

declare backoffPower.simps [simp del]

definition rateLimitingStatuses :: "int list" where
  "rateLimitingStatuses = [424, 429, 500, 502, 503]"

section \<open>buildUri\<close>

definition buildUri :: "'f library \<Rightarrow> Client \<Rightarrow> Uri \<Rightarrow> string \<times> error option" where
  "buildUri lib c uri =
     (case url_Parse lib (Endpoint c) of
        Inl err \<Rightarrow> ([], Some err)
      | Inr newUrl \<Rightarrow>
          (let p1 = ''/'' @ ApiVersion c;
               p2 = (if HasTenantId uri then p1 @ ''/'' @ TenantId c else p1);
               p3 = p2 @ ''/'' @ dropWhile (\<lambda>ch. ch = CHR ''/'') (Entity uri);
               q = (case Params uri of None \<Rightarrow> RawQuery newUrl | Some ps \<Rightarrow> Values_Encode lib ps)
           in (url_String lib (newUrl\<lparr>Path := p3, RawQuery := q\<rparr>), None)))"

section \<open>performRequest\<close>

text \<open>
  The variables of the retry loop. \<open>resp\<close> and \<open>odata\<close> are the Go variables \<open>resp\<close> and
  \<open>o\<close>; \<open>hist\<close> is what the client has done so far.
\<close>

record loop_state =
  attempts :: int
  backoff :: int
  multiplier :: int
  status :: int
  resp :: "response option"
  odata :: "OData option"
  hist :: "event list"

text \<open>Which \<open>continue\<close> ended an attempt.\<close>

datatype retry = ConsistencyRetry | RateLimitRetry

datatype outcome = Continue retry loop_state | Return "event list" result

text \<open>Lines 159-164: the default exponential backoff for the next sleep.\<close>

definition defaultBackoff :: "int \<Rightarrow> int" where
  "defaultBackoff m =
     (let b = retryBackoffInitialDelay * backoffPower 2 m
      in if b > retryBackoffDelayCap then retryBackoffDelayCap else b)"

text \<open>
  Lines 203-209: a Retry-After header that parses as a float greater than zero replaces
  the backoff and resets the multiplier.
\<close>

definition retryAfterOverride :: "'f library \<Rightarrow> response \<Rightarrow> int \<times> int \<Rightarrow> int \<times> int" where
  "retryAfterOverride lib rsp bm =
     (let retryAfter = hget (Header rsp) ''Retry-After'' in
      if retryAfter \<noteq> [] then
        (case ParseFloat lib retryAfter of
           None \<Rightarrow> bm
         | Some r \<Rightarrow> if float_gt_zero lib r then (float_to_nanos lib r, 0) else bm)
      else bm)"

text \<open>Lines 213-225: the terminal failure.\<close>

definition unexpectedStatus :: "response \<Rightarrow> int \<Rightarrow> OData option \<Rightarrow> result" where
  "unexpectedStatus rsp st od =
     (case (case od of None \<Rightarrow> None | Some ov \<Rightarrow> Error ov) of
        Some (c # cs) \<Rightarrow> (None, st, od, Some (UnexpectedStatus (StatusCode rsp) (ODataErrorText (c # cs))))
      | _ \<Rightarrow>
        (case ReadAll (Body rsp) of
           Inl err \<Rightarrow> (None, st, od, Some (UnexpectedStatusNoBody (StatusCode rsp)))
         | Inr respBody \<Rightarrow>
             (None, st, od, Some (UnexpectedStatus (StatusCode rsp) (ResponseText respBody)))))"

text \<open>
  Lines 177-226: what the loop does with the response \<open>resp1\<close> and its envelope \<open>o1\<close>,
  in the state \<open>s\<close> that already holds them, the sent request and the default backoff
  for the next sleep. Each \<open>continue\<close> runs the loop's \<open>attempts++\<close>.
\<close>

definition evaluate ::
  "'f library \<Rightarrow> Client \<Rightarrow> 'a HttpRequestInput_scheme \<Rightarrow> loop_state \<Rightarrow> response \<Rightarrow> OData option
     \<Rightarrow> outcome"
where
  "evaluate lib c input s resp1 o1 =
     (if \<not> DisableRetries c
         \<and> (case ConsistencyFailureFunc input of None \<Rightarrow> False | Some f \<Rightarrow> f resp1 o1)
         \<and> attempts s < requestAttemptsForConsistency
      then Continue ConsistencyRetry (s\<lparr>attempts := attempts s + 1\<rparr>)
      else
        (let status1 = StatusCode resp1 in
         if containsStatusCode (ValidStatusCodes input) status1
         then Return (hist s) (Some resp1, status1, o1, None)
         else if (case ValidStatusFunc input of None \<Rightarrow> False | Some f \<Rightarrow> f resp1 o1)
         then Return (hist s) (Some resp1, status1, o1, None)
         else if containsStatusCode rateLimitingStatuses status1
         then (case retryAfterOverride lib resp1 (backoff s, multiplier s) of
                 (backoff2, multiplier2) \<Rightarrow>
                   Continue RateLimitRetry
                     (s\<lparr>attempts := attempts s + 1, backoff := backoff2,
                        multiplier := multiplier2, status := status1\<rparr>))
         else Return (hist s) (unexpectedStatus resp1 status1 o1)))"

text \<open>
  One iteration of the loop of lines 153-229: the sleep, the default backoff, the send
  and the decoding, then \<open>evaluate\<close>.
\<close>

definition attempt ::
  "'f library \<Rightarrow> Client \<Rightarrow> 'a HttpRequestInput_scheme \<Rightarrow> request \<Rightarrow> bytes \<Rightarrow> loop_state \<Rightarrow> outcome"
where
  "attempt lib c input req reqBody s =
     (let h1 = (if attempts s > 0 then hist s @ [Sleep (backoff s)] else hist s);
          multiplier1 = multiplier s + 1;
          req1 = req\<lparr>ReqBody := Some (Readable reqBody)\<rparr>;
          s1 = s\<lparr>backoff := defaultBackoff multiplier1, multiplier := multiplier1,
                 hist := h1 @ [Send req1]\<rparr>
      in case HttpClient c h1 req1 of
           Inl err \<Rightarrow> Return (hist s1) (None, status s1, None, Some err)
         | Inr resp0 \<Rightarrow>
            (case FromResponse lib resp0 of
               (resp1, o1, Some err) \<Rightarrow> Return (hist s1) (None, status s1, o1, Some err)
             | (resp1, o1, None) \<Rightarrow>
                 evaluate lib c input (s1\<lparr>resp := Some resp1, odata := o1\<rparr>) resp1 o1))"

lemma evaluate_Continue_attempts:
  "evaluate lib c input s resp1 o1 = Continue r s' \<Longrightarrow> attempts s' = attempts s + 1"
  by (auto simp: evaluate_def Let_def split: prod.splits if_splits)

lemma attempt_Continue_attempts:
  "attempt lib c input req reqBody s = Continue r s' \<Longrightarrow> attempts s' = attempts s + 1"
  by (auto simp: attempt_def Let_def split: sum.splits prod.splits option.splits
        dest!: evaluate_Continue_attempts)

text \<open>
  The loop. Besides Go's four results it returns the retry decisions taken, one for each
  attempt that ended in \<open>continue\<close>, and the history of sleeps and sends.
\<close>

function attemptLoop ::
  "'f library \<Rightarrow> Client \<Rightarrow> 'a HttpRequestInput_scheme \<Rightarrow> request \<Rightarrow> bytes \<Rightarrow> loop_state
     \<Rightarrow> retry list \<times> event list \<times> result"
where
  "attemptLoop lib c input req reqBody s =
     (if attempts s < requestAttemptsForRateLimiting then
        (case attempt lib c input req reqBody s of
           Continue r s' \<Rightarrow>
             (case attemptLoop lib c input req reqBody s' of
                (rs, h, res) \<Rightarrow> (r # rs, h, res))
         | Return h res \<Rightarrow> ([], h, res))
      else ([], hist s, (resp s, status s, odata s, None)))"
  by pat_completeness auto
termination
  by (relation "measure (\<lambda>(lib, c, input, req, reqBody, s).
        nat (requestAttemptsForRateLimiting - attempts s))")
     (auto simp: attempt_Continue_attempts)

declare attemptLoop.simps [simp del]

text \<open>Lines 113-152: the authorizer, the headers and the buffered request body.\<close>

definition prepareRequest :: "Client \<Rightarrow> request \<Rightarrow> error + request" where
  "prepareRequest c req =
     (case (case Authorizer c of
              None \<Rightarrow> Inr req
            | Some (Inl err) \<Rightarrow> Inl err
            | Some (Inr token) \<Rightarrow> Inr (req\<lparr>ReqHeader := hset (ReqHeader req) ''Authorization'' token\<rparr>)) of
        Inl err \<Rightarrow> Inl err
      | Inr req1 \<Rightarrow>
          (let req2 = req1\<lparr>ReqHeader := hadd (ReqHeader req1) ''Accept'' ''application/json''\<rparr>;
               req3 = req2\<lparr>ReqHeader :=
                         hadd (ReqHeader req2) ''Content-Type'' ''application/json; charset=utf-8''\<rparr>
           in Inr (if UserAgent c \<noteq> []
                   then req3\<lparr>ReqHeader := hadd (ReqHeader req3) ''User-Agent'' (UserAgent c)\<rparr>
                   else req3)))"

definition readRequestBody :: "request \<Rightarrow> error + bytes" where
  "readRequestBody req =
     (case ReqBody req of
        None \<Rightarrow> Inr []
      | Some b \<Rightarrow> (case ReadAll b of Inl err \<Rightarrow> Inl (ReadingRequestBody err) | Inr bs \<Rightarrow> Inr bs))"

definition initial_state :: "event list \<Rightarrow> loop_state" where
  "initial_state h =
     \<lparr>attempts = 0, backoff = 0, multiplier = 0, status = 0, resp = None, odata = None,
      hist = h\<rparr>"

definition performRequest ::
  "'f library \<Rightarrow> Client \<Rightarrow> event list \<Rightarrow> request \<Rightarrow> 'a HttpRequestInput_scheme
     \<Rightarrow> retry list \<times> event list \<times> result"
where
  "performRequest lib c h req input =
     (case prepareRequest c req of
        Inl err \<Rightarrow> ([], h, (None, 0, None, Some err))
      | Inr req1 \<Rightarrow>
          (case readRequestBody req1 of
             Inl err \<Rightarrow> ([], h, (None, 0, None, Some err))
           | Inr reqBody \<Rightarrow> attemptLoop lib c input req1 reqBody (initial_state h)))"

section \<open>Get\<close>

text \<open>
  \<open>http.NewRequestWithContext\<close> with a valid method and a non-nil context: it fails
  exactly when the URL does not parse. \<open>http.NoBody\<close> is an empty readable stream.
\<close>

definition NoBody :: body where
  "NoBody = Readable []"

definition NewRequestWithContext :: "'f library \<Rightarrow> string \<Rightarrow> string \<Rightarrow> body \<Rightarrow> error + request" where
  "NewRequestWithContext lib method u b =
     (case url_Parse lib u of
        Inl err \<Rightarrow> Inl err
      | Inr parsed \<Rightarrow> Inr \<lparr>ReqMethod = method, ReqURL = parsed, ReqHeader = [], ReqBody = Some b\<rparr>)"

text \<open>Lines 315-329: the raw URI or the built one, and the request for it.\<close>

definition getRequest :: "'f library \<Rightarrow> Client \<Rightarrow> GetHttpRequestInput \<Rightarrow> error + request" where
  "getRequest lib c input =
     (case (if rawUri input = [] then
              (case buildUri lib c (Uri input) of
                 (u, Some err) \<Rightarrow> Inl (UnableToMakeRequest err)
               | (u, None) \<Rightarrow> Inr u)
            else Inr (rawUri input)) of
        Inl err \<Rightarrow> Inl err
      | Inr u \<Rightarrow> NewRequestWithContext lib ''GET'' u NoBody)"

text \<open>Lines 380-384: the next page's results appended to the current page's.\<close>

definition appendValue :: "bytes list \<Rightarrow> OData \<Rightarrow> OData" where
  "appendValue firstValue nextOdata =
     (case Value nextOdata of
        None \<Rightarrow> nextOdata
      | Some nextValue \<Rightarrow> nextOdata\<lparr>Value := Some (firstValue @ nextValue)\<rparr>)"

text \<open>
  Lines 367-393, after the recursive call has returned without error: the merged
  document becomes the body of the current page's response \<open>rsp\<close>, whose own body has
  been read and closed; \<open>st\<close> and \<open>od\<close> are the current page's status and envelope,
  \<open>st2\<close> and \<open>od2\<close> those of the recursive call.
\<close>

definition mergePage ::
  "'f library \<Rightarrow> response \<Rightarrow> int \<Rightarrow> OData option \<Rightarrow> bytes list \<Rightarrow> response option \<Rightarrow> int
     \<Rightarrow> OData option \<Rightarrow> result"
where
  "mergePage lib rsp st od firstValue nextResp st2 od2 =
     (case nextResp of
        None \<Rightarrow> (None, st2, od2, Some NilPointerPanic)
      | Some nextRsp \<Rightarrow>
         (case ReadAll (Body nextRsp) of
            Inl err \<Rightarrow> (None, st2, od2, Some CouldNotParseResponseBody)
          | Inr nextRespBody \<Rightarrow>
             (case json_Unmarshal lib nextRespBody of
                Inl err \<Rightarrow> (Some (rsp\<lparr>Body := Closed\<rparr>), st2, od2, Some err)
              | Inr nextOdata \<Rightarrow>
                 (case json_Marshal lib (appendValue firstValue nextOdata) of
                    Inl err \<Rightarrow> (Some (rsp\<lparr>Body := Closed\<rparr>), st2, od2, Some err)
                  | Inr newJson \<Rightarrow> (Some (rsp\<lparr>Body := Readable newJson\<rparr>), st, od, None)))))"

text \<open>
  \<open>Get\<close> calls itself once for every further page, and a server can link pages without
  end: the first argument bounds the depth of the recursion, and \<open>None\<close> says that the
  bound was reached. A nil response that comes with a nil error would make Go panic;
  \<open>performRequest\<close> never returns one (lemma \<open>performRequest_response\<close>).
\<close>

fun Get ::
  "nat \<Rightarrow> 'f library \<Rightarrow> Client \<Rightarrow> event list \<Rightarrow> GetHttpRequestInput \<Rightarrow> (event list \<times> result) option"
where
  "Get 0 lib c h input = None"
| "Get (Suc n) lib c h input =
     (case getRequest lib c input of
        Inl err \<Rightarrow> Some (h, (None, 0, None, Some err))
      | Inr req \<Rightarrow>
         (case performRequest lib c h req input of
            (rs, h1, (rspo, st, od, Some err)) \<Rightarrow> Some (h1, (None, st, od, Some err))
          | (rs, h1, (None, st, od, None)) \<Rightarrow> Some (h1, (None, st, od, Some NilPointerPanic))
          | (rs, h1, (Some rsp, st, od, None)) \<Rightarrow>
             if prefix ''application/json'' (ToLower lib (hget (Header rsp) ''Content-Type''))
             then
               (case ReadAll (Body rsp) of
                  Inl err \<Rightarrow> Some (h1, (None, st, od, Some CouldNotParseResponseBody))
                | Inr respBody \<Rightarrow>
                   (case json_Unmarshal lib respBody of
                      Inl err \<Rightarrow> Some (h1, (None, st, od, Some err))
                    | Inr firstOdata \<Rightarrow>
                       (case (DisablePaging input, NextLink firstOdata, Value firstOdata) of
                          (False, Some nextLink, Some firstValue) \<Rightarrow>
                            (case Get n lib c h1 (input\<lparr>rawUri := nextLink\<rparr>) of
                               None \<Rightarrow> None
                             | Some (h2, (nextResp, st2, od2, Some err)) \<Rightarrow>
                                 Some (h2, (Some (rsp\<lparr>Body := Closed\<rparr>), st2, od2, Some err))
                             | Some (h2, (nextResp, st2, od2, None)) \<Rightarrow>
                                 Some (h2, mergePage lib rsp st od firstValue nextResp st2 od2))
                        | _ \<Rightarrow> Some (h1, (Some (rsp\<lparr>Body := Readable respBody\<rparr>), st, od, None)))))
             else Some (h1, (Some rsp, st, od, None))))"

declare Get.simps [simp del]

section \<open>Reading a run\<close>

text \<open>The sleeps of a history, in order, and the request bodies it sent.\<close>

definition sleeps :: "event list \<Rightarrow> int list" where
  "sleeps h = concat (map (\<lambda>e. case e of Sleep d \<Rightarrow> [d] | Send r \<Rightarrow> []) h)"

definition sentBodies :: "event list \<Rightarrow> body option list" where
  "sentBodies h = concat (map (\<lambda>e. case e of Sleep d \<Rightarrow> [] | Send r \<Rightarrow> [ReqBody r]) h)"

text \<open>The history an attempt leaves behind, however it ends.\<close>

definition outcome_hist :: "outcome \<Rightarrow> event list" where
  "outcome_hist out = (case out of Continue r s' \<Rightarrow> hist s' | Return h res \<Rightarrow> h)"

text \<open>
  \<open>answered lib c h r od\<close>: the last event of \<open>h\<close> is a send that the transport answered,
  and \<open>r\<close> and \<open>od\<close> are that answer and its envelope as \<open>FromResponse\<close> returned them.
\<close>

definition answered :: "'f library \<Rightarrow> Client \<Rightarrow> event list \<Rightarrow> response \<Rightarrow> OData option \<Rightarrow> bool" where
  "answered lib c h r od =
     (\<exists>h0 rq r0. h = h0 @ [Send rq] \<and> HttpClient c h0 rq = Inr r0
        \<and> FromResponse lib r0 = (r, od, None))"

text \<open>
  \<open>rateLimited c input s r od\<close>: in state \<open>s\<close>, the response \<open>r\<close> with envelope \<open>od\<close> takes
  the loop into the rate-limiting branch of lines 201-211: no consistency retry is taken
  for it, its status is neither declared valid nor accepted by the extra predicate, and
  the status is one of 424, 429, 500, 502, 503.
\<close>

definition rateLimited :: "Client \<Rightarrow> 'a HttpRequestInput_scheme \<Rightarrow> loop_state \<Rightarrow> response \<Rightarrow> OData option \<Rightarrow> bool" where
  "rateLimited c input s r od =
     (\<not> (\<not> DisableRetries c
          \<and> (case ConsistencyFailureFunc input of None \<Rightarrow> False | Some f \<Rightarrow> f r od)
          \<and> attempts s < requestAttemptsForConsistency)
      \<and> \<not> containsStatusCode (ValidStatusCodes input) (StatusCode r)
      \<and> \<not> (case ValidStatusFunc input of None \<Rightarrow> False | Some f \<Rightarrow> f r od)
      \<and> containsStatusCode rateLimitingStatuses (StatusCode r))"

text \<open>
  \<open>fetched lib c h input h1 rsp st od\<close>: the request that \<open>Get\<close> makes for \<open>input\<close>,
  sent after the history \<open>h\<close>, succeeds in \<open>performRequest\<close> with the response \<open>rsp\<close>,
  the status \<open>st\<close> and the envelope \<open>od\<close>, and leaves the history \<open>h1\<close>.
  \<open>jsonPage lib rsp b env\<close>: the response has a JSON content type as line 339 tests it,
  and its body reads as the bytes \<open>b\<close>, which decode to the envelope \<open>env\<close>.
\<close>

definition fetched ::
  "'f library \<Rightarrow> Client \<Rightarrow> event list \<Rightarrow> GetHttpRequestInput \<Rightarrow> event list \<Rightarrow> response \<Rightarrow> int
     \<Rightarrow> OData option \<Rightarrow> bool"
where
  "fetched lib c h input h1 rsp st od =
     (\<exists>req rs. getRequest lib c input = Inr req
        \<and> performRequest lib c h req input = (rs, h1, (Some rsp, st, od, None)))"

definition jsonPage :: "'f library \<Rightarrow> response \<Rightarrow> bytes \<Rightarrow> OData \<Rightarrow> bool" where
  "jsonPage lib rsp b env =
     (prefix ''application/json'' (ToLower lib (hget (Header rsp) ''Content-Type''))
      \<and> Body rsp = Readable b \<and> json_Unmarshal lib b = Inr env)"

text \<open>
  \<open>noOverride lib c\<close>: no response of the transport carries a Retry-After header that
  lines 203-209 honour, so the backoff and the multiplier are never overridden.
\<close>

definition noOverride :: "'f library \<Rightarrow> Client \<Rightarrow> bool" where
  "noOverride lib c =
     (\<forall>h rq r0 bm. HttpClient c h rq = Inr r0 \<longrightarrow>
        retryAfterOverride lib (fst (FromResponse lib r0)) bm = bm)"

section \<open>A library, a client and some servers to run the model on\<close>

text \<open>
  Every theorem below is proved for all libraries, clients and transports. To run the
  model on examples the parameters need values; these are small stand-ins that agree
  with the Go functions on the inputs the examples use: \<open>sample_ParseFloat\<close> reads
  unsigned decimal integers, \<open>sample_ToLower\<close> lowers ASCII letters, the URL functions
  handle \<open>https\<close> URLs without query or fragment and parameters that need no escaping
  and are listed in the order of their keys, and the JSON codec is the finite table
  of documents it is given. \<open>sample_FromResponse\<close> decodes the body of a JSON response
  and leaves the body readable again.
\<close>

definition sample_ParseFloat :: "string \<Rightarrow> int option" where
  "sample_ParseFloat s =
     (if s \<noteq> [] \<and> list_all (\<lambda>ch. 48 \<le> (of_char ch :: nat) \<and> (of_char ch :: nat) \<le> 57) s
      then Some (foldl (\<lambda>a ch. 10 * a + (int (of_char ch) - 48)) 0 s)
      else None)"

definition sample_ToLower :: "string \<Rightarrow> string" where
  "sample_ToLower s =
     map (\<lambda>ch. if 65 \<le> (of_char ch :: nat) \<and> (of_char ch :: nat) \<le> 90
                then char_of ((of_char ch :: nat) + 32) else ch) s"

definition sample_url_Parse :: "string \<Rightarrow> error + url" where
  "sample_url_Parse s =
     (if prefix ''https://'' s \<and> CHR ''?'' \<notin> set s \<and> CHR ''#'' \<notin> set s
      then Inr \<lparr>Scheme = ''https'', Opaque = [],
                Host = takeWhile (\<lambda>ch. ch \<noteq> CHR ''/'') (drop 8 s),
                Path = dropWhile (\<lambda>ch. ch \<noteq> CHR ''/'') (drop 8 s),
                RawQuery = [], Fragment = []\<rparr>
      else Inl (ExternalError ''unsupported URL''))"

definition sample_url_String :: "url \<Rightarrow> string" where
  "sample_url_String u =
     Scheme u @ ''://'' @ Host u @ Path u @ (if RawQuery u = [] then [] else ''?'' @ RawQuery u)"

definition sample_Values_Encode :: "header \<Rightarrow> string" where
  "sample_Values_Encode ps =
     (case concat (map (\<lambda>(k, vs). map (\<lambda>v. k @ ''='' @ v) vs) ps) of
        [] \<Rightarrow> []
      | kv # kvs \<Rightarrow> kv @ concat (map (\<lambda>x. ''&'' @ x) kvs))"

definition sample_Unmarshal :: "(bytes \<times> OData) list \<Rightarrow> bytes \<Rightarrow> error + OData" where
  "sample_Unmarshal docs b =
     (case map_of docs b of None \<Rightarrow> Inl (ExternalError ''invalid JSON'') | Some od \<Rightarrow> Inr od)"

definition sample_Marshal :: "(bytes \<times> OData) list \<Rightarrow> OData \<Rightarrow> error + bytes" where
  "sample_Marshal docs od =
     (case find (\<lambda>(b, od'). od' = od) docs of
        None \<Rightarrow> Inl (ExternalError ''unsupported document'')
      | Some (b, od') \<Rightarrow> Inr b)"

definition sample_FromResponse ::
  "(bytes \<times> OData) list \<Rightarrow> response \<Rightarrow> response \<times> OData option \<times> error option" where
  "sample_FromResponse docs r =
     (if prefix ''application/json'' (sample_ToLower (hget (Header r) ''Content-Type'')) then
        (case ReadAll (Body r) of
           Inl err \<Rightarrow> (r, None, Some err)
         | Inr b \<Rightarrow>
            (case sample_Unmarshal docs b of
               Inl err \<Rightarrow> (r\<lparr>Body := Readable b\<rparr>, None, Some err)
             | Inr od \<Rightarrow> (r\<lparr>Body := Readable b\<rparr>, Some od, None)))
      else (r, None, None))"

definition sample_library :: "(bytes \<times> OData) list \<Rightarrow> int library" where
  "sample_library docs =
     \<lparr>ParseFloat = sample_ParseFloat, float_gt_zero = (\<lambda>r. 0 < r),
      float_to_nanos = (\<lambda>r. r * Second), ToLower = sample_ToLower,
      url_Parse = sample_url_Parse, url_String = sample_url_String,
      Values_Encode = sample_Values_Encode, FromResponse = sample_FromResponse docs,
      json_Unmarshal = sample_Unmarshal docs, json_Marshal = sample_Marshal docs\<rparr>"

definition sample_client :: "(event list \<Rightarrow> request \<Rightarrow> error + response) \<Rightarrow> Client" where
  "sample_client transport =
     \<lparr>Endpoint = ''https://graph.microsoft.com'', ApiVersion = ''v1.0'', TenantId = ''tenant'',
      UserAgent = ''Hamilton (Go-http-client/1.1)'', Authorizer = None, DisableRetries = False,
      HttpClient = transport\<rparr>"

definition sample_input :: GetHttpRequestInput where
  "sample_input =
     \<lparr>ConsistencyFailureFunc = Some RetryOn404ConsistencyFailureFunc, ValidStatusCodes = [200],
      ValidStatusFunc = None, DisablePaging = False,
      Uri = \<lparr>Entity = ''/users'', Params = None, HasTenantId = True\<rparr>, rawUri = []\<rparr>"

definition sample_request :: request where
  "sample_request =
     \<lparr>ReqMethod = ''POST'',
      ReqURL = \<lparr>Scheme = ''https'', Opaque = [], Host = ''graph.microsoft.com'',
                Path = ''/v1.0/tenant/users'', RawQuery = [], Fragment = []\<rparr>,
      ReqHeader = [], ReqBody = Some (Readable ''{}'')\<rparr>"

text \<open>A response with a status, no header and an empty body; a JSON response.\<close>

definition plain :: "int \<Rightarrow> response" where
  "plain st = \<lparr>StatusCode = st, Header = [], Body = Readable []\<rparr>"

definition json :: "bytes \<Rightarrow> response" where
  "json b =
     \<lparr>StatusCode = 200, Header = [(''Content-Type'', [''application/json''])], Body = Readable b\<rparr>"

text \<open>A server that answers every request with the same status.\<close>

definition always :: "int \<Rightarrow> event list \<Rightarrow> request \<Rightarrow> error + response" where
  "always st h r = Inr (plain st)"

text \<open>A server that is busy (429) for the first six requests and answers 404 afterwards.\<close>

definition busy_then_missing :: "event list \<Rightarrow> request \<Rightarrow> error + response" where
  "busy_then_missing h r = Inr (plain (if length (sentBodies h) < 6 then 429 else 404))"

text \<open>
  A server that answers every request with 429, the third one with \<open>Retry-After: 2\<close>
  and the others without the header; and a server that answers every request with 429
  and \<open>Retry-After: 0\<close>.
\<close>

definition retry_after_2 :: "event list \<Rightarrow> request \<Rightarrow> error + response" where
  "retry_after_2 h r =
     Inr (if length (sentBodies h) = 2 then (plain 429)\<lparr>Header := [(''Retry-After'', [''2''])]\<rparr>
          else plain 429)"

definition retry_after_0 :: "event list \<Rightarrow> request \<Rightarrow> error + response" where
  "retry_after_0 h r = Inr ((plain 429)\<lparr>Header := [(''Retry-After'', [''0''])]\<rparr>)"

text \<open>
  A server that answers every request with 429 and \<open>Retry-After: 2\<close>, and a
  consistency-failure predicate that a caller may supply: it takes a 429 for a failure
  that a retry resolves.
\<close>

definition always_retry_after_2 :: "event list \<Rightarrow> request \<Rightarrow> error + response" where
  "always_retry_after_2 h r = Inr ((plain 429)\<lparr>Header := [(''Retry-After'', [''2''])]\<rparr>)"

definition retry_on_429 :: ConsistencyFailureFunc where
  "retry_on_429 rsp od = (StatusCode rsp = 429)"

text \<open>
  \<open>sample_request\<close> as the loop sends it, with the headers of lines 124-130, and the state
  of the loop after two attempts that were answered with 429 and no Retry-After header.
\<close>

definition sample_sent :: request where
  "sample_sent =
     sample_request\<lparr>ReqHeader :=
       [(''Accept'', [''application/json'']),
        (''Content-Type'', [''application/json; charset=utf-8'']),
        (''User-Agent'', [''Hamilton (Go-http-client/1.1)''])]\<rparr>"

definition after_two_attempts :: loop_state where
  "after_two_attempts =
     \<lparr>attempts = 2, backoff = 4 * Second, multiplier = 2, status = 429,
      resp = Some (plain 429), odata = None,
      hist = [Send sample_sent, Sleep (2 * Second), Send sample_sent]\<rparr>"

text \<open>Three linked pages, and the documents of the JSON codec that go with them.\<close>

definition page :: "string option \<Rightarrow> bytes list \<Rightarrow> OData" where
  "page link items = \<lparr>NextLink = link, Value = Some items, Error = None, Metadata = []\<rparr>"

definition link2 :: string where
  "link2 = ''https://graph.microsoft.com/v1.0/tenant/users/page2''"

definition link3 :: string where
  "link3 = ''https://graph.microsoft.com/v1.0/tenant/users/page3''"

definition three_docs :: "(bytes \<times> OData) list" where
  "three_docs =
     [(''page1'', page (Some link2) [''a'', ''b'']),
      (''page2'', page (Some link3) [''c'']),
      (''page3'', page None [''d'', ''e'']),
      (''merged23'', page None [''c'', ''d'', ''e'']),
      (''merged123'', page None [''a'', ''b'', ''c'', ''d'', ''e''])]"

definition three_pages :: "event list \<Rightarrow> request \<Rightarrow> error + response" where
  "three_pages h r =
     (if Path (ReqURL r) = ''/v1.0/tenant/users'' then Inr (json ''page1'')
      else if Path (ReqURL r) = ''/v1.0/tenant/users/page2'' then Inr (json ''page2'')
      else if Path (ReqURL r) = ''/v1.0/tenant/users/page3'' then Inr (json ''page3'')
      else Inr (plain 404))"

text \<open>A server that answers every request with a plain-text document.\<close>

definition plain_text :: "event list \<Rightarrow> request \<Rightarrow> error + response" where
  "plain_text h r =
     Inr \<lparr>StatusCode = 200, Header = [(''Content-Type'', [''text/plain''])],
          Body = Readable ''page1''\<rparr>"

text \<open>
  The GET request for a path of the sample endpoint as \<open>NewRequestWithContext\<close> builds
  it, and as the loop sends it.
\<close>

definition sample_get :: "string \<Rightarrow> request" where
  "sample_get p =
     \<lparr>ReqMethod = ''GET'',
      ReqURL = \<lparr>Scheme = ''https'', Opaque = [], Host = ''graph.microsoft.com'', Path = p,
                RawQuery = [], Fragment = []\<rparr>,
      ReqHeader = [], ReqBody = Some NoBody\<rparr>"

definition sample_get_sent :: "string \<Rightarrow> request" where
  "sample_get_sent p =
     (sample_get p)\<lparr>ReqHeader :=
       [(''Accept'', [''application/json'']),
        (''Content-Type'', [''application/json; charset=utf-8'']),
        (''User-Agent'', [''Hamilton (Go-http-client/1.1)''])]\<rparr>"

section \<open>Facts about the loop\<close>

lemma sentBodies_Nil [simp]: "sentBodies [] = []"
  by (simp add: sentBodies_def)

lemma sentBodies_append [simp]: "sentBodies (xs @ ys) = sentBodies xs @ sentBodies ys"
  by (simp add: sentBodies_def)

lemma sentBodies_Sleep [simp]: "sentBodies [Sleep d] = []"
  by (simp add: sentBodies_def)

lemma sentBodies_Send [simp]: "sentBodies [Send r] = [ReqBody r]"
  by (simp add: sentBodies_def)

lemma sleeps_Nil [simp]: "sleeps [] = []"
  by (simp add: sleeps_def)

lemma sleeps_append [simp]: "sleeps (xs @ ys) = sleeps xs @ sleeps ys"
  by (simp add: sleeps_def)

lemma sleeps_Sleep [simp]: "sleeps [Sleep d] = [d]"
  by (simp add: sleeps_def)

lemma sleeps_Send [simp]: "sleeps [Send r] = []"
  by (simp add: sleeps_def)

lemma evaluate_hist: "outcome_hist (evaluate lib c input s resp1 o1) = hist s"
  by (simp add: evaluate_def outcome_hist_def Let_def split: prod.split)

lemma attempt_hist:
  "outcome_hist (attempt lib c input req reqBody s) =
     hist s @ (if attempts s > 0 then [Sleep (backoff s)] else [])
            @ [Send (req\<lparr>ReqBody := Some (Readable reqBody)\<rparr>)]"
  unfolding attempt_def Let_def
  by (simp add: evaluate_hist split: sum.split prod.split option.split)
     (simp add: outcome_hist_def)

lemma evaluate_ConsistencyRetry_early:
  "evaluate lib c input s resp1 o1 = Continue ConsistencyRetry s' \<Longrightarrow>
     attempts s < requestAttemptsForConsistency"
  by (auto simp: evaluate_def Let_def split: prod.splits if_splits)

lemma attempt_ConsistencyRetry_early:
  "attempt lib c input req reqBody s = Continue ConsistencyRetry s' \<Longrightarrow>
     attempts s < requestAttemptsForConsistency"
  by (auto simp: attempt_def Let_def split: sum.splits prod.splits option.splits
        dest!: evaluate_ConsistencyRetry_early)

lemma evaluate_RateLimitRetry_state:
  assumes "evaluate lib c input s resp1 o1 = Continue RateLimitRetry s'"
  shows "status s' = StatusCode resp1
           \<and> containsStatusCode rateLimitingStatuses (StatusCode resp1)
           \<and> resp s' = resp s \<and> odata s' = odata s \<and> hist s' = hist s"
  using assms unfolding evaluate_def Let_def
  by (auto split: prod.splits if_splits)

lemma attempt_RateLimitRetry_state:
  assumes "attempt lib c input req reqBody s = Continue RateLimitRetry s'"
  shows "\<exists>r. resp s' = Some r \<and> status s' = StatusCode r
           \<and> containsStatusCode rateLimitingStatuses (StatusCode r)
           \<and> answered lib c (hist s') r (odata s')"
  using assms unfolding attempt_def Let_def answered_def
  by (auto split: sum.splits prod.splits option.splits dest!: evaluate_RateLimitRetry_state)

text \<open>The three ways one round of the loop goes.\<close>

lemma attemptLoop_done:
  "\<not> attempts s < requestAttemptsForRateLimiting \<Longrightarrow>
     attemptLoop lib c input req reqBody s = ([], hist s, (resp s, status s, odata s, None))"
  by (simp add: attemptLoop.simps)

lemma attemptLoop_Return:
  "attempts s < requestAttemptsForRateLimiting \<Longrightarrow>
   attempt lib c input req reqBody s = Return h res \<Longrightarrow>
     attemptLoop lib c input req reqBody s = ([], h, res)"
  by (simp add: attemptLoop.simps)

lemma attemptLoop_Continue:
  "attempts s < requestAttemptsForRateLimiting \<Longrightarrow>
   attempt lib c input req reqBody s = Continue r s' \<Longrightarrow>
     attemptLoop lib c input req reqBody s =
       (r # fst (attemptLoop lib c input req reqBody s'),
        snd (attemptLoop lib c input req reqBody s'))"
  by (simp add: attemptLoop.simps split: prod.splits)

lemma attempt_Continue_D:
  assumes "attempt lib c input req reqBody s = Continue r s'"
  shows "\<exists>resp0 resp1 o1.
     HttpClient c (if 0 < attempts s then hist s @ [Sleep (backoff s)] else hist s)
       (req\<lparr>ReqBody := Some (Readable reqBody)\<rparr>) = Inr resp0
     \<and> FromResponse lib resp0 = (resp1, o1, None)
     \<and> evaluate lib c input
         (s\<lparr>backoff := defaultBackoff (multiplier s + 1), multiplier := multiplier s + 1,
            hist := (if 0 < attempts s then hist s @ [Sleep (backoff s)] else hist s)
                      @ [Send (req\<lparr>ReqBody := Some (Readable reqBody)\<rparr>)],
            resp := Some resp1, odata := o1\<rparr>) resp1 o1 = Continue r s'"
  using assms unfolding attempt_def Let_def
  by (auto split: sum.splits prod.splits option.splits)

lemma performRequest_loop:
  assumes "performRequest lib c h req input = (rs, h', res)"
  shows "(rs = [] \<and> h' = h) \<or>
         (\<exists>req1 reqBody. prepareRequest c req = Inr req1 \<and> readRequestBody req1 = Inr reqBody
            \<and> attemptLoop lib c input req1 reqBody (initial_state h) = (rs, h', res))"
  using assms unfolding performRequest_def
  by (auto split: sum.splits)

lemma triple_collapse: "p = (fst p, fst (snd p), snd (snd p))"
  by simp

lemma attemptLoop_length:
  "attemptLoop lib c input req reqBody s = (rs, h', res) \<Longrightarrow>
     length rs \<le> nat (requestAttemptsForRateLimiting - attempts s)"
proof (induction lib c input req reqBody s arbitrary: rs h' res rule: attemptLoop.induct)
  case (1 lib c input req reqBody s)
  show ?case
  proof (cases "attempts s < requestAttemptsForRateLimiting")
    case False
    with "1.prems" show ?thesis
      by (simp add: attemptLoop_done)
  next
    case True
    show ?thesis
    proof (cases "attempt lib c input req reqBody s")
      case (Return h res0)
      with True "1.prems" show ?thesis by (simp add: attemptLoop_Return)
    next
      case (Continue r s')
      obtain rs1 h1 res1 where rec: "attemptLoop lib c input req reqBody s' = (rs1, h1, res1)"
        by (cases "attemptLoop lib c input req reqBody s'") auto
      from True Continue rec "1.prems" have rs: "rs = r # rs1"
        by (simp add: attemptLoop_Continue)
      have att: "attempts s' = attempts s + 1"
        using Continue by (rule attempt_Continue_attempts)
      from "1.IH"[OF True Continue rec] att rs True show ?thesis by simp
    qed
  qed
qed

lemma attemptLoop_consistency_index:
  "attemptLoop lib c input req reqBody s = (rs, h', res) \<Longrightarrow> i < length rs \<Longrightarrow>
     rs ! i = ConsistencyRetry \<Longrightarrow> attempts s + int i < requestAttemptsForConsistency"
proof (induction lib c input req reqBody s arbitrary: rs h' res i rule: attemptLoop.induct)
  case (1 lib c input req reqBody s)
  show ?case
  proof (cases "attempts s < requestAttemptsForRateLimiting")
    case False
    with "1.prems" show ?thesis by (simp add: attemptLoop_done)
  next
    case True
    show ?thesis
    proof (cases "attempt lib c input req reqBody s")
      case (Return h res0)
      with True "1.prems" show ?thesis by (simp add: attemptLoop_Return)
    next
      case (Continue r s')
      obtain rs1 h1 res1 where rec: "attemptLoop lib c input req reqBody s' = (rs1, h1, res1)"
        by (cases "attemptLoop lib c input req reqBody s'") auto
      from True Continue rec "1.prems" have rs: "rs = r # rs1"
        by (simp add: attemptLoop_Continue)
      have att: "attempts s' = attempts s + 1"
        using Continue by (rule attempt_Continue_attempts)
      show ?thesis
      proof (cases i)
        case 0
        with rs "1.prems" have "r = ConsistencyRetry" by simp
        with Continue have "attempts s < requestAttemptsForConsistency"
          by (auto dest: attempt_ConsistencyRetry_early)
        with 0 show ?thesis by simp
      next
        case (Suc j)
        with rs "1.prems" have "j < length rs1" "rs1 ! j = ConsistencyRetry" by auto
        from "1.IH"[OF True Continue rec this] att Suc show ?thesis by simp
      qed
    qed
  qed
qed

lemma backoffPower_two: "backoffPower 2 (int (Suc n)) = 2 ^ Suc n"
proof (induction n)
  case 0
  show ?case by (simp add: backoffPower.simps)
next
  case (Suc n)
  have "backoffPower 2 (int (Suc (Suc n))) = 2 * backoffPower 2 (int (Suc (Suc n)) - 1)"
    by (subst backoffPower.simps) simp
  also have "int (Suc (Suc n)) - 1 = int (Suc n)" by simp
  finally show ?case using Suc by simp
qed

lemma defaultBackoff_closed:
  "defaultBackoff (int (Suc n)) = min (Second * 2 ^ Suc n) (64 * Second)"
  unfolding defaultBackoff_def Let_def retryBackoffInitialDelay_def retryBackoffDelayCap_def
  by (simp only: backoffPower_two) (simp add: min_def)

lemma default_backoff_int64:
  "n < 10 \<Longrightarrow> 0 < Second * 2 ^ Suc n \<and> Second * 2 ^ Suc n < 2 ^ 63"
proof -
  assume "n < 10"
  then have "Suc n \<le> 10" by simp
  then have "(2::int) ^ Suc n \<le> 2 ^ 10" by (rule power_increasing) simp
  then have "Second * 2 ^ Suc n \<le> Second * 2 ^ 10"
    by (simp add: Second_def)
  then show ?thesis by (simp add: Second_def)
qed

lemma evaluate_default_state:
  assumes "evaluate lib c input s resp1 o1 = Continue r s'"
    and "retryAfterOverride lib resp1 (backoff s, multiplier s) = (backoff s, multiplier s)"
  shows "backoff s' = backoff s \<and> multiplier s' = multiplier s"
  using assms unfolding evaluate_def Let_def
  by (auto split: if_splits)

lemma attempt_default_state:
  assumes "attempt lib c input req reqBody s = Continue r s'" and "noOverride lib c"
  shows "multiplier s' = multiplier s + 1 \<and> backoff s' = defaultBackoff (multiplier s + 1)"
proof -
  from attempt_Continue_D[OF assms(1)] obtain resp0 resp1 o1 s1 where
    send: "HttpClient c (if 0 < attempts s then hist s @ [Sleep (backoff s)] else hist s)
       (req\<lparr>ReqBody := Some (Readable reqBody)\<rparr>) = Inr resp0"
    and dec: "FromResponse lib resp0 = (resp1, o1, None)"
    and s1: "s1 = s\<lparr>backoff := defaultBackoff (multiplier s + 1), multiplier := multiplier s + 1,
            hist := (if 0 < attempts s then hist s @ [Sleep (backoff s)] else hist s)
                      @ [Send (req\<lparr>ReqBody := Some (Readable reqBody)\<rparr>)],
            resp := Some resp1, odata := o1\<rparr>"
    and ev: "evaluate lib c input s1 resp1 o1 = Continue r s'"
    by blast
  from assms(2) send dec
  have "retryAfterOverride lib resp1 (backoff s1, multiplier s1) = (backoff s1, multiplier s1)"
    unfolding noOverride_def by (metis fst_conv)
  from evaluate_default_state[OF ev this] s1 show ?thesis by simp
qed

lemma attemptLoop_sleeps:
  "attemptLoop lib c input req reqBody s = (rs, h', res) \<Longrightarrow> noOverride lib c \<Longrightarrow>
   0 \<le> attempts s \<Longrightarrow> multiplier s = attempts s \<Longrightarrow>
   (0 < attempts s \<Longrightarrow> backoff s = defaultBackoff (attempts s)) \<Longrightarrow>
   \<exists>m. sleeps h' = sleeps (hist s)
          @ map (\<lambda>k. defaultBackoff (int k)) [max 1 (nat (attempts s))..<m]"
proof (induction lib c input req reqBody s arbitrary: rs h' res rule: attemptLoop.induct)
  case (1 lib c input req reqBody s)
  let ?a = "nat (attempts s)"
  have first: "(if 0 < attempts s then [backoff s] else [])
       = map (\<lambda>k. defaultBackoff (int k)) [max 1 ?a..<Suc ?a]"
    using "1.prems"(3,5) by (cases "0 < attempts s") (auto simp: max_def)
  show ?case
  proof (cases "attempts s < requestAttemptsForRateLimiting")
    case False
    with "1.prems"(1) have "h' = hist s" by (simp add: attemptLoop_done)
    then have "sleeps h' = sleeps (hist s) @ map (\<lambda>k. defaultBackoff (int k)) [max 1 ?a..<0]"
      by simp
    then show ?thesis ..
  next
    case True
    have hs: "outcome_hist (attempt lib c input req reqBody s) =
        hist s @ (if attempts s > 0 then [Sleep (backoff s)] else [])
            @ [Send (req\<lparr>ReqBody := Some (Readable reqBody)\<rparr>)]"
      by (rule attempt_hist)
    show ?thesis
    proof (cases "attempt lib c input req reqBody s")
      case (Return h res0)
      with True "1.prems"(1) have "h' = h" by (simp add: attemptLoop_Return)
      with Return hs have "sleeps h' = sleeps (hist s) @ (if 0 < attempts s then [backoff s] else [])"
        by (simp add: outcome_hist_def)
      with first have "sleeps h' = sleeps (hist s)
          @ map (\<lambda>k. defaultBackoff (int k)) [max 1 ?a..<Suc ?a]"
        by simp
      then show ?thesis ..
    next
      case (Continue r s')
      obtain rs1 h1 res1 where rec: "attemptLoop lib c input req reqBody s' = (rs1, h1, res1)"
        by (cases "attemptLoop lib c input req reqBody s'") auto
      from True Continue rec "1.prems"(1) have rs: "rs = r # rs1" "h' = h1" "res = res1"
        by (simp_all add: attemptLoop_Continue)
      have att: "attempts s' = attempts s + 1"
        using Continue by (rule attempt_Continue_attempts)
      from attempt_default_state[OF Continue "1.prems"(2)] "1.prems"(4) att
      have st: "multiplier s' = attempts s'" "backoff s' = defaultBackoff (attempts s')"
        by simp_all
      from att "1.prems"(3) have pos: "0 \<le> attempts s'" by simp
      from "1.IH"[OF True Continue rec "1.prems"(2) pos st(1) st(2)]
      obtain m where m: "sleeps h1 = sleeps (hist s')
          @ map (\<lambda>k. defaultBackoff (int k)) [max 1 (nat (attempts s'))..<m]"
        by blast
      from att "1.prems"(3) have nat': "max 1 (nat (attempts s')) = Suc ?a"
        by (simp add: nat_add_distrib)
      from Continue hs have hs': "sleeps (hist s') = sleeps (hist s) @ (if 0 < attempts s then [backoff s] else [])"
        by (simp add: outcome_hist_def)
      show ?thesis
      proof (cases "Suc ?a \<le> m")
        case True
        from True obtain k where k: "m = Suc ?a + k"
          using le_Suc_ex by blast
        have le: "max 1 ?a \<le> Suc ?a" by simp
        have "[max 1 ?a..<m] = [max 1 ?a..<Suc ?a] @ [Suc ?a..<m]"
          unfolding k by (rule upt_add_eq_append[OF le])
        with m hs' first nat' rs have
          "sleeps h' = sleeps (hist s) @ map (\<lambda>k. defaultBackoff (int k)) [max 1 ?a..<m]"
          by simp
        then show ?thesis ..
      next
        case False
        then have "[Suc ?a..<m] = []" by simp
        with m hs' first nat' rs have
          "sleeps h' = sleeps (hist s) @ map (\<lambda>k. defaultBackoff (int k)) [max 1 ?a..<Suc ?a]"
          by simp
        then show ?thesis ..
      qed
    qed
  qed
qed

lemma attemptLoop_exhausted:
  "attemptLoop lib c input req reqBody s = (rs, h', res) \<Longrightarrow>
   int (length rs) = requestAttemptsForRateLimiting - attempts s \<Longrightarrow>
   list_all (\<lambda>r. r = RateLimitRetry) rs \<Longrightarrow>
   (rs = [] \<Longrightarrow> \<exists>r. resp s = Some r \<and> status s = StatusCode r
           \<and> containsStatusCode rateLimitingStatuses (StatusCode r)
           \<and> answered lib c (hist s) r (odata s)) \<Longrightarrow>
   \<exists>r od. res = (Some r, StatusCode r, od, None)
           \<and> containsStatusCode rateLimitingStatuses (StatusCode r)
           \<and> answered lib c h' r od"
proof (induction lib c input req reqBody s arbitrary: rs h' res rule: attemptLoop.induct)
  case (1 lib c input req reqBody s)
  show ?case
  proof (cases "attempts s < requestAttemptsForRateLimiting")
    case False
    with "1.prems"(1) have eq: "rs = []" "h' = hist s" "res = (resp s, status s, odata s, None)"
      by (simp_all add: attemptLoop_done)
    from "1.prems"(4)[OF eq(1)] eq show ?thesis by auto
  next
    case True
    show ?thesis
    proof (cases "attempt lib c input req reqBody s")
      case (Return h res0)
      with True "1.prems"(1) have "rs = []" by (simp add: attemptLoop_Return)
      with True "1.prems"(2) show ?thesis by simp
    next
      case (Continue r s')
      obtain rs1 h1 res1 where rec: "attemptLoop lib c input req reqBody s' = (rs1, h1, res1)"
        by (cases "attemptLoop lib c input req reqBody s'") auto
      from True Continue rec "1.prems"(1) have rs: "rs = r # rs1" "h' = h1" "res = res1"
        by (simp_all add: attemptLoop_Continue)
      have att: "attempts s' = attempts s + 1"
        using Continue by (rule attempt_Continue_attempts)
      from rs "1.prems"(3) have r: "r = RateLimitRetry"
        and all1: "list_all (\<lambda>r. r = RateLimitRetry) rs1"
        by simp_all
      from rs "1.prems"(2) att
      have len1: "int (length rs1) = requestAttemptsForRateLimiting - attempts s'"
        by simp
      have inv: "\<exists>r. resp s' = Some r \<and> status s' = StatusCode r
           \<and> containsStatusCode rateLimitingStatuses (StatusCode r)
           \<and> answered lib c (hist s') r (odata s')"
        using Continue r by (auto intro: attempt_RateLimitRetry_state)
      from "1.IH"[OF True Continue rec len1 all1 inv] rs show ?thesis by simp
    qed
  qed
qed

lemma readRequestBody_prepareRequest:
  "prepareRequest c req = Inr req1 \<Longrightarrow> readRequestBody req1 = readRequestBody req"
  unfolding prepareRequest_def readRequestBody_def Let_def
  by (auto split: option.splits sum.splits if_splits)

lemma sentBodies_Cons_Send [simp]: "sentBodies (Send r # es) = ReqBody r # sentBodies es"
  by (simp add: sentBodies_def)

lemma sentBodies_Cons_Sleep [simp]: "sentBodies (Sleep d # es) = sentBodies es"
  by (simp add: sentBodies_def)

lemma attemptLoop_bodies:
  "attemptLoop lib c input req reqBody s = (rs, h', res) \<Longrightarrow>
   \<exists>new. h' = hist s @ new \<and> list_all (\<lambda>b. b = Some (Readable reqBody)) (sentBodies new)"
proof (induction lib c input req reqBody s arbitrary: rs h' res rule: attemptLoop.induct)
  case (1 lib c input req reqBody s)
  have hs: "outcome_hist (attempt lib c input req reqBody s) =
      hist s @ (if attempts s > 0 then [Sleep (backoff s)] else [])
          @ [Send (req\<lparr>ReqBody := Some (Readable reqBody)\<rparr>)]"
    by (rule attempt_hist)
  show ?case
  proof (cases "attempts s < requestAttemptsForRateLimiting")
    case False
    with "1.prems"(1) show ?thesis by (simp add: attemptLoop_done)
  next
    case True
    show ?thesis
    proof (cases "attempt lib c input req reqBody s")
      case (Return h res0)
      with True "1.prems"(1) have "h' = h" by (simp add: attemptLoop_Return)
      with Return hs show ?thesis by (simp add: outcome_hist_def)
    next
      case (Continue r s')
      obtain rs1 h1 res1 where rec: "attemptLoop lib c input req reqBody s' = (rs1, h1, res1)"
        by (cases "attemptLoop lib c input req reqBody s'") auto
      from True Continue rec "1.prems"(1) have rs: "rs = r # rs1" "h' = h1" "res = res1"
        by (simp_all add: attemptLoop_Continue)
      from Continue hs
      have hs': "hist s' = hist s @ (if attempts s > 0 then [Sleep (backoff s)] else [])
            @ [Send (req\<lparr>ReqBody := Some (Readable reqBody)\<rparr>)]"
        by (simp add: outcome_hist_def)
      from "1.IH"[OF True Continue rec] obtain new1 where
        n1: "h1 = hist s' @ new1" "list_all (\<lambda>b. b = Some (Readable reqBody)) (sentBodies new1)"
        by blast
      from n1 hs' rs show ?thesis by simp
    qed
  qed
qed

lemma attempt_rateLimited:
  assumes send: "HttpClient c (if 0 < attempts s then hist s @ [Sleep (backoff s)] else hist s)
                   (req\<lparr>ReqBody := Some (Readable reqBody)\<rparr>) = Inr resp0"
    and dec: "FromResponse lib resp0 = (resp1, o1, None)"
    and branch: "rateLimited c input s resp1 o1"
    and ov: "retryAfterOverride lib resp1 (defaultBackoff (multiplier s + 1), multiplier s + 1) = (b2, m2)"
  shows "attempt lib c input req reqBody s =
     Continue RateLimitRetry
       (s\<lparr>attempts := attempts s + 1, backoff := b2, multiplier := m2,
          status := StatusCode resp1, resp := Some resp1, odata := o1,
          hist := (if 0 < attempts s then hist s @ [Sleep (backoff s)] else hist s)
                    @ [Send (req\<lparr>ReqBody := Some (Readable reqBody)\<rparr>)]\<rparr>)"
  using branch unfolding attempt_def Let_def rateLimited_def
  by (simp add: send dec evaluate_def Let_def ov)

lemma attemptLoop_prefix:
  assumes "attempts s < requestAttemptsForRateLimiting"
  shows "prefix (outcome_hist (attempt lib c input req reqBody s))
           (fst (snd (attemptLoop lib c input req reqBody s)))"
proof (cases "attempt lib c input req reqBody s")
  case (Return h res)
  with assms show ?thesis by (simp add: attemptLoop_Return outcome_hist_def)
next
  case (Continue r s')
  obtain rs1 h1 res1 where rec: "attemptLoop lib c input req reqBody s' = (rs1, h1, res1)"
    by (cases "attemptLoop lib c input req reqBody s'") auto
  from attemptLoop_bodies[OF rec] obtain new where "h1 = hist s' @ new" by blast
  with assms Continue rec show ?thesis
    by (simp add: attemptLoop_Continue outcome_hist_def)
qed

lemma evaluate_Continue_backoff:
  assumes "evaluate lib c input s resp1 o1 = Continue r s'"
  shows "(r = ConsistencyRetry \<and> backoff s' = backoff s \<and> multiplier s' = multiplier s)
       \<or> (r = RateLimitRetry
           \<and> (backoff s', multiplier s') = retryAfterOverride lib resp1 (backoff s, multiplier s))"
  using assms unfolding evaluate_def Let_def
  by (auto split: if_splits prod.splits)

lemma retryAfterOverride_cases:
  "retryAfterOverride lib rsp bm =
     (if hget (Header rsp) ''Retry-After'' \<noteq> []
         \<and> (\<exists>x. ParseFloat lib (hget (Header rsp) ''Retry-After'') = Some x \<and> float_gt_zero lib x)
      then (float_to_nanos lib (the (ParseFloat lib (hget (Header rsp) ''Retry-After''))), 0)
      else bm)"
  unfolding retryAfterOverride_def Let_def
  by (auto split: option.splits)

text \<open>A call that returns no error returns a response: \<open>Get\<close> never meets the nil pointer.\<close>

lemma unexpectedStatus_error: "unexpectedStatus rsp st od = (r, st', od', e) \<Longrightarrow> e \<noteq> None"
  unfolding unexpectedStatus_def
  by (auto split: option.splits list.splits sum.splits)

lemma evaluate_Return_response:
  "evaluate lib c input s resp1 o1 = Return h (r, st, od, None) \<Longrightarrow> r = Some resp1"
  unfolding evaluate_def Let_def
  by (auto split: if_splits prod.splits dest: unexpectedStatus_error)

lemma attempt_Return_response:
  "attempt lib c input req reqBody s = Return h (r, st, od, None) \<Longrightarrow> r \<noteq> None"
  unfolding attempt_def Let_def
  by (auto split: sum.splits prod.splits option.splits dest: evaluate_Return_response)

lemma evaluate_Continue_resp:
  "evaluate lib c input s resp1 o1 = Continue r s' \<Longrightarrow> resp s' = resp s"
  unfolding evaluate_def Let_def
  by (auto split: if_splits prod.splits)

lemma attempt_Continue_resp:
  "attempt lib c input req reqBody s = Continue r s' \<Longrightarrow> resp s' \<noteq> None"
  unfolding attempt_def Let_def
  by (auto split: sum.splits prod.splits option.splits dest!: evaluate_Continue_resp)

lemma attemptLoop_response:
  "attemptLoop lib c input req reqBody s = (rs, h', (r, st, od, None)) \<Longrightarrow>
   attempts s < requestAttemptsForRateLimiting \<or> resp s \<noteq> None \<Longrightarrow> r \<noteq> None"
proof (induction lib c input req reqBody s arbitrary: rs h' rule: attemptLoop.induct)
  case (1 lib c input req reqBody s)
  show ?case
  proof (cases "attempts s < requestAttemptsForRateLimiting")
    case False
    with "1.prems" show ?thesis by (simp add: attemptLoop_done)
  next
    case True
    show ?thesis
    proof (cases "attempt lib c input req reqBody s")
      case (Return h res0)
      with True "1.prems"(1) have "attempt lib c input req reqBody s = Return h (r, st, od, None)"
        by (simp add: attemptLoop_Return)
      then show ?thesis by (rule attempt_Return_response)
    next
      case (Continue r' s')
      obtain rs1 h1 res1 where rec: "attemptLoop lib c input req reqBody s' = (rs1, h1, res1)"
        by (cases "attemptLoop lib c input req reqBody s'") auto
      from True Continue rec "1.prems"(1) have "res1 = (r, st, od, None)"
        by (simp add: attemptLoop_Continue)
      with rec have rec': "attemptLoop lib c input req reqBody s' = (rs1, h1, (r, st, od, None))"
        by simp
      from Continue have "resp s' \<noteq> None" by (rule attempt_Continue_resp)
      then show ?thesis by (intro "1.IH"[OF True Continue rec']) simp
    qed
  qed
qed

lemma performRequest_response:
  assumes "performRequest lib c h req input = (rs, h', (r, st, od, None))"
  shows "r \<noteq> None"
proof -
  from assms obtain req1 reqBody where
    "attemptLoop lib c input req1 reqBody (initial_state h) = (rs, h', (r, st, od, None))"
    unfolding performRequest_def by (auto split: sum.splits)
  then show ?thesis
    by (rule attemptLoop_response)
       (simp add: initial_state_def requestAttemptsForRateLimiting_def)
qed

text \<open>
  The sleeps of a call in which no Retry-After header is honoured: before the k-th retry
  the loop sleeps \<open>min (1s * 2^k) 64s\<close>, that is 2s, 4s, 8s, 16s, 32s and then 64s.
\<close>

lemma default_backoff_progression:
  assumes "performRequest lib c h req input = (rs, h', res)" and "noOverride lib c"
  shows "\<exists>m. sleeps h' = sleeps h @ map (\<lambda>k. min (Second * 2 ^ k) (64 * Second)) [1..<m]"
proof -
  from performRequest_loop[OF assms(1)] show ?thesis
  proof
    assume "rs = [] \<and> h' = h"
    then have "sleeps h' = sleeps h @ map (\<lambda>k. min (Second * 2 ^ k) (64 * Second)) [1..<0]"
      by simp
    then show ?thesis ..
  next
    assume "\<exists>req1 reqBody. prepareRequest c req = Inr req1 \<and> readRequestBody req1 = Inr reqBody
          \<and> attemptLoop lib c input req1 reqBody (initial_state h) = (rs, h', res)"
    then obtain req1 reqBody where
      loop: "attemptLoop lib c input req1 reqBody (initial_state h) = (rs, h', res)" by blast
    from attemptLoop_sleeps[OF loop assms(2)] obtain m where
      m: "sleeps h' = sleeps h @ map (\<lambda>k. defaultBackoff (int k)) [1..<m]"
      by (auto simp: initial_state_def)
    have "map (\<lambda>k. defaultBackoff (int k)) [1..<m]
        = map (\<lambda>k. min (Second * 2 ^ k) (64 * Second)) [1..<m]"
    proof (rule map_cong[OF refl])
      fix k assume "k \<in> set [1..<m]"
      then have "0 < k" by simp
      then obtain n where "k = Suc n" by (cases k) simp_all
      then show "defaultBackoff (int k) = min (Second * 2 ^ k) (64 * Second)"
        by (simp only: defaultBackoff_closed)
    qed
    with m show ?thesis by metis
  qed
qed

section \<open>Facts about buildUri\<close>

text \<open>
  \<open>strings.TrimLeft(s, "/")\<close> is \<open>dropWhile\<close>: what it removes are slashes only, and what
  it leaves does not begin with a slash.
\<close>

lemma takeWhile_eq_replicate:
  "takeWhile (\<lambda>ch. ch = x) xs = replicate (length (takeWhile (\<lambda>ch. ch = x) xs)) x"
  by (induction xs) auto

lemma trimLeft_spec:
  "\<exists>k. s = replicate k x @ dropWhile (\<lambda>ch. ch = x) s \<and> \<not> prefix [x] (dropWhile (\<lambda>ch. ch = x) s)"
proof -
  have "s = takeWhile (\<lambda>ch. ch = x) s @ dropWhile (\<lambda>ch. ch = x) s" by simp
  then have "s = replicate (length (takeWhile (\<lambda>ch. ch = x) s)) x @ dropWhile (\<lambda>ch. ch = x) s"
    using takeWhile_eq_replicate[of x s] by simp
  moreover have "\<not> prefix [x] (dropWhile (\<lambda>ch. ch = x) s)"
  proof (cases "dropWhile (\<lambda>ch. ch = x) s")
    case Nil
    show ?thesis unfolding Nil by simp
  next
    case (Cons y ys)
    then have "y \<noteq> x" using hd_dropWhile[of "\<lambda>ch. ch = x" s] by auto
    then show ?thesis unfolding Cons by simp
  qed
  ultimately show ?thesis by blast
qed

section \<open>Facts about Get\<close>

lemma fetchedI:
  "getRequest lib c input = Inr req \<Longrightarrow>
   performRequest lib c h req input = (rs, h1, (Some rsp, st, od, None)) \<Longrightarrow>
   fetched lib c h input h1 rsp st od"
  by (auto simp: fetched_def)

lemma Body_rewrap: "Body rsp = Readable b \<Longrightarrow> rsp\<lparr>Body := Readable b\<rparr> = rsp"
  by (cases rsp) simp

lemma Get_last_page:
  assumes "fetched lib c h input h1 rsp st od" and "jsonPage lib rsp b env"
    and "DisablePaging input \<or> NextLink env = None \<or> Value env = None"
  shows "Get (Suc n) lib c h input = Some (h1, (Some rsp, st, od, None))"
  using assms unfolding fetched_def jsonPage_def
  by (auto simp: Get.simps ReadAll_def Body_rewrap split: option.splits bool.splits)

lemma Get_next_page:
  assumes "fetched lib c h input h1 rsp st od" and "jsonPage lib rsp b env"
    and "\<not> DisablePaging input" and "NextLink env = Some link" and "Value env = Some items"
    and "Get n lib c h1 (input\<lparr>rawUri := link\<rparr>) = Some (h2, (Some rsp2, st2, od2, None))"
    and "Body rsp2 = Readable b2" and "json_Unmarshal lib b2 = Inr env2"
    and "json_Marshal lib (appendValue items env2) = Inr merged"
  shows "Get (Suc n) lib c h input = Some (h2, (Some (rsp\<lparr>Body := Readable merged\<rparr>), st, od, None))"
  using assms unfolding fetched_def jsonPage_def
  by (auto simp: Get.simps ReadAll_def mergePage_def)

section \<open>C1: the default backoff sequence\<close>

text \<open>
  C1 states that, when no Retry-After header is honoured, the sleep before the k-th retry
  is \<open>min (1s * 2^(k-1)) 64s\<close>: 1s, 2s, 4s, 8s and so on up to 64s. The loop increments
  \<open>multiplier\<close> before it computes \<open>retryBackoffInitialDelay * backoffPower 2 multiplier\<close>,
  and \<open>backoffPower 2 1 = 2\<close>, so the first sleep is twice the initial delay. Against a
  server that answers 429 ten times, without any Retry-After header, the nine sleeps are
  2s, 4s, 8s, 16s, 32s, 64s, 64s, 64s, 64s.
\<close>

theorem first_backoff_is_two_seconds:
  "sleeps (fst (snd (performRequest (sample_library []) (sample_client (always 429)) []
      sample_request sample_input)))
   = [2 * Second, 4 * Second, 8 * Second, 16 * Second, 32 * Second, 64 * Second, 64 * Second,
      64 * Second, 64 * Second]"
  by code_simp

section \<open>C2: consistency retries and the attempt budget\<close>

text \<open>
  C2, as the specification states it: consistency retries have a cap of six that is
  counted separately from the ten attempts, so attempts used up by rate-limiting retries
  leave the number of consistency retries untouched. The code has one counter: against a
  server that is busy (429) six times and then answers 404, with
  \<open>RetryOn404ConsistencyFailureFunc\<close> as the predicate, the six retries are all
  rate-limiting ones, the seventh response is a consistency failure, no consistency retry
  has been taken so far, three attempts of the ten are left, and the call returns the 404
  as an unexpected status after seven sends.
\<close>

theorem consistency_retries_separate_counterexample:
  "performRequest (sample_library []) (sample_client busy_then_missing) [] sample_request sample_input
     = (replicate 6 RateLimitRetry,
        fst (snd (performRequest (sample_library []) (sample_client busy_then_missing) []
                    sample_request sample_input)),
        (None, 404, None, Some (UnexpectedStatus 404 (ResponseText []))))
   \<and> length (sentBodies (fst (snd (performRequest (sample_library [])
         (sample_client busy_then_missing) [] sample_request sample_input)))) = 7
   \<and> RetryOn404ConsistencyFailureFunc (plain 404) None"
  by code_simp

text \<open>
  C2, amended: the retry decisions of a call are numbered like its attempts, whatever
  their kind. There are at most ten of them (\<open>requestAttemptsForRateLimiting\<close>); a
  consistency retry ends only one of the first six attempts
  (\<open>requestAttemptsForConsistency\<close>), so a call takes at most six of them, and every
  rate-limiting retry among the first six attempts leaves one fewer.
\<close>

theorem consistency_retries_on_shared_counter:
  assumes "performRequest lib c h req input = (rs, h', res)"
  shows "int (length rs) \<le> requestAttemptsForRateLimiting
       \<and> (\<forall>i < length rs. rs ! i = ConsistencyRetry \<longrightarrow> int i < requestAttemptsForConsistency)
       \<and> int (length (filter (\<lambda>r. r = ConsistencyRetry) rs)) \<le> requestAttemptsForConsistency"
proof -
  from performRequest_loop[OF assms]
  have idx: "\<forall>i < length rs. rs ! i = ConsistencyRetry \<longrightarrow> i < 6"
  proof
    assume "rs = [] \<and> h' = h"
    then show ?thesis by simp
  next
    assume "\<exists>req1 reqBody. prepareRequest c req = Inr req1 \<and> readRequestBody req1 = Inr reqBody
          \<and> attemptLoop lib c input req1 reqBody (initial_state h) = (rs, h', res)"
    then obtain req1 reqBody where
      loop: "attemptLoop lib c input req1 reqBody (initial_state h) = (rs, h', res)" by blast
    show ?thesis
    proof (intro allI impI)
      fix i assume "i < length rs" "rs ! i = ConsistencyRetry"
      from attemptLoop_consistency_index[OF loop this]
      show "i < 6" by (simp add: initial_state_def requestAttemptsForConsistency_def)
    qed
  qed
  from performRequest_loop[OF assms]
  have len: "length rs \<le> 10"
  proof
    assume "rs = [] \<and> h' = h"
    then show ?thesis by simp
  next
    assume "\<exists>req1 reqBody. prepareRequest c req = Inr req1 \<and> readRequestBody req1 = Inr reqBody
          \<and> attemptLoop lib c input req1 reqBody (initial_state h) = (rs, h', res)"
    then obtain req1 reqBody where
      loop: "attemptLoop lib c input req1 reqBody (initial_state h) = (rs, h', res)" by blast
    from attemptLoop_length[OF loop]
    show ?thesis by (simp add: initial_state_def requestAttemptsForRateLimiting_def)
  qed
  have "x \<noteq> ConsistencyRetry" if "x \<in> set (drop 6 rs)" for x
  proof
    assume x: "x = ConsistencyRetry"
    from that obtain j where j: "j < length (drop 6 rs)" "drop 6 rs ! j = x"
      by (auto simp: in_set_conv_nth)
    then have "6 + j < length rs" "rs ! (6 + j) = ConsistencyRetry"
      using x by simp_all
    with idx have "6 + j < 6" by blast
    then show False by simp
  qed
  then have "filter (\<lambda>r. r = ConsistencyRetry) (drop 6 rs) = []"
    by (simp add: filter_empty_conv)
  then have "filter (\<lambda>r. r = ConsistencyRetry) rs = filter (\<lambda>r. r = ConsistencyRetry) (take 6 rs)"
    by (metis append_Nil2 append_take_drop_id filter_append)
  moreover have "length (filter (\<lambda>r. r = ConsistencyRetry) (take 6 rs)) \<le> 6"
    by (rule order_trans[OF length_filter_le]) simp
  ultimately show ?thesis
    using idx len
    by (simp add: requestAttemptsForRateLimiting_def requestAttemptsForConsistency_def)
qed

text \<open>
  Against a server that always answers 404 the limit is reached: the first six attempts
  end in a consistency retry, the seventh does not.
\<close>

theorem consistency_retries_on_shared_counter_witness:
  "fst (performRequest (sample_library []) (sample_client (always 404)) [] sample_request sample_input)
     = replicate 6 ConsistencyRetry
   \<and> int (length (filter (\<lambda>r. r = ConsistencyRetry)
        (fst (performRequest (sample_library []) (sample_client (always 404)) []
                sample_request sample_input)))) \<le> requestAttemptsForConsistency
   \<and> int (length (fst (performRequest (sample_library []) (sample_client (always 404)) []
                sample_request sample_input))) \<le> requestAttemptsForRateLimiting"
proof -
  have run: "fst (performRequest (sample_library []) (sample_client (always 404)) []
                sample_request sample_input) = replicate 6 ConsistencyRetry"
    by code_simp
  from consistency_retries_on_shared_counter[OF triple_collapse] run show ?thesis by blast
qed

section \<open>C3: the exhausted attempt budget\<close>

text \<open>
  C3: if all ten attempts of \<open>performRequest\<close> end in the rate-limiting branch, the call
  returns the last attempt's response, its status and its envelope, with a nil error:
  the response is the transport's answer to the last send of the history, its status is
  one of 424, 429, 500, 502, 503, and no error is made up for the exhausted budget.
\<close>

theorem exhausted_budget_returns_last_response:
  assumes "performRequest lib c h req input = (rs, h', res)"
    and "rs = replicate (nat requestAttemptsForRateLimiting) RateLimitRetry"
  shows "\<exists>r od. res = (Some r, StatusCode r, od, None)
           \<and> containsStatusCode rateLimitingStatuses (StatusCode r)
           \<and> answered lib c h' r od"
proof -
  from assms(2) have ne: "rs \<noteq> []" and len: "int (length rs) = requestAttemptsForRateLimiting"
    and all: "list_all (\<lambda>r. r = RateLimitRetry) rs"
    by (simp_all add: requestAttemptsForRateLimiting_def list_all_iff)
  from performRequest_loop[OF assms(1)] ne obtain req1 reqBody where
    loop: "attemptLoop lib c input req1 reqBody (initial_state h) = (rs, h', res)" by blast
  from len have len0: "int (length rs) = requestAttemptsForRateLimiting - attempts (initial_state h)"
    by (simp add: initial_state_def)
  from attemptLoop_exhausted[OF loop len0 all] ne show ?thesis by blast
qed

theorem exhausted_budget_returns_last_response_witness:
  "fst (performRequest (sample_library []) (sample_client (always 429)) [] sample_request sample_input)
     = replicate (nat requestAttemptsForRateLimiting) RateLimitRetry
   \<and> snd (snd (performRequest (sample_library []) (sample_client (always 429)) []
        sample_request sample_input)) = (Some (plain 429), 429, None, None)
   \<and> (\<exists>r od. snd (snd (performRequest (sample_library []) (sample_client (always 429)) []
          sample_request sample_input)) = (Some r, StatusCode r, od, None)
        \<and> containsStatusCode rateLimitingStatuses (StatusCode r)
        \<and> answered (sample_library []) (sample_client (always 429))
            (fst (snd (performRequest (sample_library []) (sample_client (always 429)) []
               sample_request sample_input))) r od)"
proof -
  have run: "fst (performRequest (sample_library []) (sample_client (always 429)) []
       sample_request sample_input) = replicate (nat requestAttemptsForRateLimiting) RateLimitRetry"
    by code_simp
  have res: "snd (snd (performRequest (sample_library []) (sample_client (always 429)) []
        sample_request sample_input)) = (Some (plain 429), 429, None, None)"
    by code_simp
  from exhausted_budget_returns_last_response[OF triple_collapse run] run res
  show ?thesis by blast
qed

lemma after_two_attempts_reached:
  "(case attempt (sample_library []) (sample_client retry_after_2) sample_input sample_sent ''{}''
           (initial_state []) of
      Continue r s1 \<Rightarrow>
        attempt (sample_library []) (sample_client retry_after_2) sample_input sample_sent ''{}'' s1
    | Return h res \<Rightarrow> Return h res)
   = Continue RateLimitRetry after_two_attempts"
  by code_simp

lemma sample_sent_prepared:
  "prepareRequest (sample_client retry_after_2) sample_request = Inr sample_sent
   \<and> readRequestBody sample_sent = Inr ''{}''"
  by code_simp

section \<open>C4: Retry-After: 2\<close>

text \<open>
  C4, as the specification states it: when an attempt of \<open>performRequest\<close> yields a status
  in the rate-limiting class and the response carries \<open>Retry-After: 2\<close>, the sleep before
  the next attempt is exactly two seconds. The loop asks the consistency-failure
  predicate first (lines 177-185) and, when it takes a consistency retry, never looks at
  the header. Against a server that answers every request with 429 and \<open>Retry-After: 2\<close>,
  with a predicate that takes a 429 for a consistency failure, the first six attempts end
  in a consistency retry and the sleeps after them are the default 2s, 4s, 8s, 16s, 32s
  and 64s; only from the seventh attempt on is the header read and the sleep two seconds.
\<close>

theorem retry_after_ignored_counterexample:
  "sleeps (fst (snd (performRequest (sample_library []) (sample_client always_retry_after_2) []
      sample_request (sample_input\<lparr>ConsistencyFailureFunc := Some retry_on_429\<rparr>))))
     = [2 * Second, 4 * Second, 8 * Second, 16 * Second, 32 * Second, 64 * Second,
        2 * Second, 2 * Second, 2 * Second]
   \<and> fst (performRequest (sample_library []) (sample_client always_retry_after_2) []
      sample_request (sample_input\<lparr>ConsistencyFailureFunc := Some retry_on_429\<rparr>))
     = replicate 6 ConsistencyRetry @ replicate 4 RateLimitRetry
   \<and> always_retry_after_2 [Send sample_sent] sample_sent
     = Inr ((plain 429)\<lparr>Header := [(''Retry-After'', [''2''])]\<rparr>)
   \<and> containsStatusCode rateLimitingStatuses
       (StatusCode ((plain 429)\<lparr>Header := [(''Retry-After'', [''2''])]\<rparr>))
   \<and> hget (Header ((plain 429)\<lparr>Header := [(''Retry-After'', [''2''])]\<rparr>)) ''Retry-After'' = ''2''
   \<and> ParseFloat (sample_library []) ''2'' = Some 2"
  by code_simp

text \<open>
  C4, amended: when an attempt of \<open>performRequest\<close> reaches the rate-limiting branch, that
  is, no consistency retry is taken for its response, its status is neither declared
  valid nor accepted by the extra predicate, and the status is in the rate-limiting
  class, and the response carries the header \<open>Retry-After: 2\<close>, then the loop sleeps
  exactly two seconds before the next attempt, whatever the exponential backoff was, and
  the multiplier is back at the value the loop starts with, so the exponential
  progression starts over. The library is assumed to read the string 2 as Go does: as a
  float that is greater than zero and that \<open>int64(r * float64(time.Second))\<close> turns into
  two seconds. The attempt is not the last of the ten, so there is a next one.
\<close>

theorem retry_after_two_seconds:
  assumes send: "HttpClient c (if 0 < attempts s then hist s @ [Sleep (backoff s)] else hist s)
                   (req\<lparr>ReqBody := Some (Readable reqBody)\<rparr>) = Inr resp0"
    and dec: "FromResponse lib resp0 = (resp1, o1, None)"
    and branch: "rateLimited c input s resp1 o1"
    and hdr: "hget (Header resp1) ''Retry-After'' = ''2''"
    and two: "ParseFloat lib ''2'' = Some two" "float_gt_zero lib two"
             "float_to_nanos lib two = 2 * Second"
    and more: "0 \<le> attempts s" "attempts s + 1 < requestAttemptsForRateLimiting"
  shows "\<exists>s' rs h' res.
           attempt lib c input req reqBody s = Continue RateLimitRetry s'
         \<and> backoff s' = 2 * Second
         \<and> multiplier s' = multiplier (initial_state [])
         \<and> attemptLoop lib c input req reqBody s = (RateLimitRetry # rs, h', res)
         \<and> prefix (hist s' @ [Sleep (2 * Second),
                               Send (req\<lparr>ReqBody := Some (Readable reqBody)\<rparr>)]) h'"
proof -
  let ?s' = "s\<lparr>attempts := attempts s + 1, backoff := 2 * Second, multiplier := 0,
          status := StatusCode resp1, resp := Some resp1, odata := o1,
          hist := (if 0 < attempts s then hist s @ [Sleep (backoff s)] else hist s)
                    @ [Send (req\<lparr>ReqBody := Some (Readable reqBody)\<rparr>)]\<rparr>"
  have ov: "retryAfterOverride lib resp1 (defaultBackoff (multiplier s + 1), multiplier s + 1)
              = (2 * Second, 0)"
    by (simp add: retryAfterOverride_def hdr two)
  have step: "attempt lib c input req reqBody s = Continue RateLimitRetry ?s'"
    by (rule attempt_rateLimited[OF send dec branch ov])
  from more have lt: "attempts s < requestAttemptsForRateLimiting"
    and lt': "attempts ?s' < requestAttemptsForRateLimiting" and pos: "0 < attempts ?s'"
    by simp_all
  have loop: "attemptLoop lib c input req reqBody s =
      (RateLimitRetry # fst (attemptLoop lib c input req reqBody ?s'),
       fst (snd (attemptLoop lib c input req reqBody ?s')),
       snd (snd (attemptLoop lib c input req reqBody ?s')))"
    by (simp add: attemptLoop_Continue[OF lt step])
  have "outcome_hist (attempt lib c input req reqBody ?s') =
      hist ?s' @ [Sleep (2 * Second), Send (req\<lparr>ReqBody := Some (Readable reqBody)\<rparr>)]"
    using pos by (simp add: attempt_hist)
  with attemptLoop_prefix[OF lt', of lib c input req reqBody]
  have pre: "prefix (hist ?s' @ [Sleep (2 * Second),
                Send (req\<lparr>ReqBody := Some (Readable reqBody)\<rparr>)])
           (fst (snd (attemptLoop lib c input req reqBody ?s')))"
    by simp
  have "backoff ?s' = 2 * Second" "multiplier ?s' = multiplier (initial_state [])"
    by (simp_all add: initial_state_def)
  with step loop pre show ?thesis by blast
qed

text \<open>
  The server \<open>retry_after_2\<close> sends the header with its third answer, where the default
  backoff would be eight seconds: the sleeps of the whole call are 2s, 4s, then the 2s
  of the header, then 2s, 4s, 8s and so on from the start of the progression.
\<close>

theorem retry_after_two_seconds_witness:
  "(\<exists>s' rs h' res.
       attempt (sample_library []) (sample_client retry_after_2) sample_input sample_sent ''{}''
         after_two_attempts = Continue RateLimitRetry s'
     \<and> backoff s' = 2 * Second
     \<and> multiplier s' = multiplier (initial_state [])
     \<and> attemptLoop (sample_library []) (sample_client retry_after_2) sample_input sample_sent ''{}''
         after_two_attempts = (RateLimitRetry # rs, h', res)
     \<and> prefix (hist s' @ [Sleep (2 * Second),
                           Send (sample_sent\<lparr>ReqBody := Some (Readable ''{}'')\<rparr>)]) h')
   \<and> sleeps (fst (snd (performRequest (sample_library []) (sample_client retry_after_2) []
        sample_request sample_input)))
      = [2 * Second, 4 * Second, 2 * Second, 2 * Second, 4 * Second, 8 * Second, 16 * Second,
         32 * Second, 64 * Second]"
proof -
  let ?r = "(plain 429)\<lparr>Header := [(''Retry-After'', [''2''])]\<rparr>"
  have send: "HttpClient (sample_client retry_after_2)
       (if 0 < attempts after_two_attempts
        then hist after_two_attempts @ [Sleep (backoff after_two_attempts)]
        else hist after_two_attempts)
       (sample_sent\<lparr>ReqBody := Some (Readable ''{}'')\<rparr>) = Inr ?r"
    by code_simp
  have dec: "FromResponse (sample_library []) ?r = (?r, None, None)"
    by code_simp
  have branch: "rateLimited (sample_client retry_after_2) sample_input after_two_attempts ?r None"
    by code_simp
  have hdr: "hget (Header ?r) ''Retry-After'' = ''2''"
    by code_simp
  have two: "ParseFloat (sample_library []) ''2'' = Some 2" "float_gt_zero (sample_library []) 2"
    "float_to_nanos (sample_library []) 2 = 2 * Second"
    by code_simp+
  have more: "0 \<le> attempts after_two_attempts"
    "attempts after_two_attempts + 1 < requestAttemptsForRateLimiting"
    by code_simp+
  have run: "sleeps (fst (snd (performRequest (sample_library []) (sample_client retry_after_2) []
        sample_request sample_input)))
      = [2 * Second, 4 * Second, 2 * Second, 2 * Second, 4 * Second, 8 * Second, 16 * Second,
         32 * Second, 64 * Second]"
    by code_simp
  from retry_after_two_seconds[OF send dec branch hdr two more] run show ?thesis by blast
qed

section \<open>C5: three linked pages\<close>

text \<open>
  C5: for a GET with paging enabled over three JSON pages, where the first page links
  to the second and the second to the third, with the result arrays [a, b], [c] and
  [d, e], \<open>Get\<close> returns one response: the first page's response, status and envelope,
  with a body that is the encoding of one merged envelope. The merged envelope has the
  result array [a, b, c, d, e], in the order in which the pages arrived, and is the last
  page's envelope in everything else, so it has no next link. The JSON codec is assumed
  to encode the two merged envelopes and to decode the inner one back. A recursion depth
  of three is enough.
\<close>

theorem three_pages_merged:
  assumes paging: "\<not> DisablePaging input"
    and p1: "fetched lib c h input h1 r1 st1 od1" "jsonPage lib r1 b1 e1"
            "NextLink e1 = Some next2" "Value e1 = Some [va, vb]"
    and p2: "fetched lib c h1 (input\<lparr>rawUri := next2\<rparr>) h2 r2 st2 od2" "jsonPage lib r2 b2 e2"
            "NextLink e2 = Some next3" "Value e2 = Some [vc]"
    and p3: "fetched lib c h2 (input\<lparr>rawUri := next3\<rparr>) h3 r3 st3 od3" "jsonPage lib r3 b3 e3"
            "NextLink e3 = None" "Value e3 = Some [vd, ve]"
    and codec: "json_Marshal lib (e3\<lparr>Value := Some [vc, vd, ve]\<rparr>) = Inr m23"
               "json_Unmarshal lib m23 = Inr (e3\<lparr>Value := Some [vc, vd, ve]\<rparr>)"
               "json_Marshal lib (e3\<lparr>Value := Some [va, vb, vc, vd, ve]\<rparr>) = Inr m123"
  shows "\<exists>merged. Get (Suc (Suc (Suc n))) lib c h input
             = Some (h3, (Some (r1\<lparr>Body := Readable m123\<rparr>), st1, od1, None))
           \<and> json_Marshal lib merged = Inr m123
           \<and> Value merged = Some [va, vb, vc, vd, ve]
           \<and> NextLink merged = None
           \<and> merged\<lparr>Value := Value e3\<rparr> = e3"
proof -
  have g3: "Get (Suc n) lib c h2 (input\<lparr>rawUri := next3\<rparr>) = Some (h3, (Some r3, st3, od3, None))"
    by (rule Get_last_page[OF p3(1,2)]) (simp add: p3(3))
  have b3: "Body r3 = Readable b3" "json_Unmarshal lib b3 = Inr e3"
    using p3(2) by (simp_all add: jsonPage_def)
  have a3: "appendValue [vc] e3 = e3\<lparr>Value := Some [vc, vd, ve]\<rparr>"
    by (simp add: appendValue_def p3(4))
  have paging2: "\<not> DisablePaging (input\<lparr>rawUri := next2\<rparr>)"
    using paging by simp
  have in3: "input\<lparr>rawUri := next2, rawUri := next3\<rparr> = input\<lparr>rawUri := next3\<rparr>"
    by simp
  have g2: "Get (Suc (Suc n)) lib c h1 (input\<lparr>rawUri := next2\<rparr>)
              = Some (h3, (Some (r2\<lparr>Body := Readable m23\<rparr>), st2, od2, None))"
    by (rule Get_next_page[OF p2(1,2) paging2 p2(3,4) _ b3])
       (simp_all add: in3 g3 a3 codec(1))
  have a2: "appendValue [va, vb] (e3\<lparr>Value := Some [vc, vd, ve]\<rparr>) = e3\<lparr>Value := Some [va, vb, vc, vd, ve]\<rparr>"
    by (simp add: appendValue_def)
  have g1: "Get (Suc (Suc (Suc n))) lib c h input
              = Some (h3, (Some (r1\<lparr>Body := Readable m123\<rparr>), st1, od1, None))"
    by (rule Get_next_page[OF p1(1,2) paging p1(3,4) g2 _ codec(2)])
       (simp_all add: a2 codec(3))
  have "(e3\<lparr>Value := Some [va, vb, vc, vd, ve]\<rparr>)\<lparr>Value := Value e3\<rparr> = e3"
    by simp
  with g1 codec(3) p3(3) show ?thesis
    by (intro exI[of _ "e3\<lparr>Value := Some [va, vb, vc, vd, ve]\<rparr>"]) simp
qed

theorem three_pages_merged_witness:
  "Get 3 (sample_library three_docs) (sample_client three_pages) [] sample_input
     = Some ([Send (sample_get_sent ''/v1.0/tenant/users''),
              Send (sample_get_sent ''/v1.0/tenant/users/page2''),
              Send (sample_get_sent ''/v1.0/tenant/users/page3'')],
             (Some (json ''merged123''), 200, Some (page (Some link2) [''a'', ''b'']), None))
   \<and> json_Marshal (sample_library three_docs) (page None [''a'', ''b'', ''c'', ''d'', ''e''])
       = Inr ''merged123''"
proof -
  let ?L = "sample_library three_docs" and ?C = "sample_client three_pages"
  let ?h1 = "[Send (sample_get_sent ''/v1.0/tenant/users'')]"
  let ?h2 = "[Send (sample_get_sent ''/v1.0/tenant/users''),
              Send (sample_get_sent ''/v1.0/tenant/users/page2'')]"
  let ?h3 = "[Send (sample_get_sent ''/v1.0/tenant/users''),
              Send (sample_get_sent ''/v1.0/tenant/users/page2''),
              Send (sample_get_sent ''/v1.0/tenant/users/page3'')]"
  have paging: "\<not> DisablePaging sample_input" by code_simp
  have req1: "getRequest ?L ?C sample_input = Inr (sample_get ''/v1.0/tenant/users'')"
    by code_simp
  have run1: "performRequest ?L ?C [] (sample_get ''/v1.0/tenant/users'') sample_input
             = ([], ?h1, (Some (json ''page1''), 200, Some (page (Some link2) [''a'', ''b'']), None))"
    by code_simp
  have pg1: "jsonPage ?L (json ''page1'') ''page1'' (page (Some link2) [''a'', ''b''])"
    "NextLink (page (Some link2) [''a'', ''b'']) = Some link2"
    "Value (page (Some link2) [''a'', ''b'']) = Some [''a'', ''b'']"
    by code_simp+
  have req2: "getRequest ?L ?C (sample_input\<lparr>rawUri := link2\<rparr>)
                = Inr (sample_get ''/v1.0/tenant/users/page2'')"
    by code_simp
  have run2: "performRequest ?L ?C ?h1 (sample_get ''/v1.0/tenant/users/page2'')
                (sample_input\<lparr>rawUri := link2\<rparr>)
             = ([], ?h2, (Some (json ''page2''), 200, Some (page (Some link3) [''c'']), None))"
    by code_simp
  have pg2: "jsonPage ?L (json ''page2'') ''page2'' (page (Some link3) [''c''])"
    "NextLink (page (Some link3) [''c'']) = Some link3"
    "Value (page (Some link3) [''c'']) = Some [''c'']"
    by code_simp+
  have req3: "getRequest ?L ?C (sample_input\<lparr>rawUri := link3\<rparr>)
                = Inr (sample_get ''/v1.0/tenant/users/page3'')"
    by code_simp
  have run3: "performRequest ?L ?C ?h2 (sample_get ''/v1.0/tenant/users/page3'')
                (sample_input\<lparr>rawUri := link3\<rparr>)
             = ([], ?h3, (Some (json ''page3''), 200, Some (page None [''d'', ''e'']), None))"
    by code_simp
  have pg3: "jsonPage ?L (json ''page3'') ''page3'' (page None [''d'', ''e''])"
    "NextLink (page None [''d'', ''e'']) = None"
    "Value (page None [''d'', ''e'']) = Some [''d'', ''e'']"
    by code_simp+
  have codec: "json_Marshal ?L ((page None [''d'', ''e''])\<lparr>Value := Some [''c'', ''d'', ''e'']\<rparr>)
                 = Inr ''merged23''"
    "json_Unmarshal ?L ''merged23''
       = Inr ((page None [''d'', ''e''])\<lparr>Value := Some [''c'', ''d'', ''e'']\<rparr>)"
    "json_Marshal ?L ((page None [''d'', ''e''])\<lparr>Value := Some [''a'', ''b'', ''c'', ''d'', ''e'']\<rparr>)
       = Inr ''merged123''"
    by code_simp+
  have body: "(json ''page1'')\<lparr>Body := Readable ''merged123''\<rparr> = json ''merged123''"
    by code_simp
  have m: "json_Marshal ?L (page None [''a'', ''b'', ''c'', ''d'', ''e'']) = Inr ''merged123''"
    by code_simp
  from three_pages_merged[OF paging fetchedI[OF req1 run1] pg1 fetchedI[OF req2 run2] pg2
      fetchedI[OF req3 run3] pg3 codec, of 0] body m
  show ?thesis by (auto simp: numeral_3_eq_3)
qed

section \<open>C6: the request body is replayed\<close>

text \<open>
  C6: for every request body, the body sent on each attempt of \<open>performRequest\<close> is the
  body sent on the first attempt: a fresh readable stream over the bytes that were read
  from the request's body once, before the loop.
\<close>

theorem request_body_replayed:
  assumes "performRequest lib c h req input = (rs, h', res)"
  shows "\<exists>new. h' = h @ new
           \<and> (\<forall>k < length (sentBodies new).
                 sentBodies new ! k = sentBodies new ! 0
                 \<and> (\<exists>b. readRequestBody req = Inr b \<and> sentBodies new ! k = Some (Readable b)))"
proof -
  from performRequest_loop[OF assms] show ?thesis
  proof
    assume "rs = [] \<and> h' = h"
    then have "h' = h @ [] \<and> (\<forall>k < length (sentBodies []).
                 sentBodies [] ! k = sentBodies [] ! 0
                 \<and> (\<exists>b. readRequestBody req = Inr b \<and> sentBodies [] ! k = Some (Readable b)))"
      by simp
    then show ?thesis by (rule exI)
  next
    assume "\<exists>req1 reqBody. prepareRequest c req = Inr req1 \<and> readRequestBody req1 = Inr reqBody
          \<and> attemptLoop lib c input req1 reqBody (initial_state h) = (rs, h', res)"
    then obtain req1 reqBody where prep: "prepareRequest c req = Inr req1"
      and rd: "readRequestBody req1 = Inr reqBody"
      and loop: "attemptLoop lib c input req1 reqBody (initial_state h) = (rs, h', res)" by blast
    from readRequestBody_prepareRequest[OF prep] rd have rd0: "readRequestBody req = Inr reqBody"
      by simp
    from attemptLoop_bodies[OF loop] obtain new where
      new: "h' = h @ new" "list_all (\<lambda>b. b = Some (Readable reqBody)) (sentBodies new)"
      by (auto simp: initial_state_def)
    from new(2) have nth: "\<forall>k < length (sentBodies new). sentBodies new ! k = Some (Readable reqBody)"
      by (simp add: list_all_length)
    have "sentBodies new ! k = sentBodies new ! 0" if "k < length (sentBodies new)" for k
    proof -
      from that have "0 < length (sentBodies new)" by (cases "sentBodies new") simp_all
      with nth that show ?thesis by simp
    qed
    with nth new(1) rd0 have "h' = h @ new \<and> (\<forall>k < length (sentBodies new).
                 sentBodies new ! k = sentBodies new ! 0
                 \<and> (\<exists>b. readRequestBody req = Inr b \<and> sentBodies new ! k = Some (Readable b)))"
      by auto
    then show ?thesis by (rule exI)
  qed
qed

theorem request_body_replayed_witness:
  "sentBodies (fst (snd (performRequest (sample_library []) (sample_client busy_then_missing) []
      sample_request sample_input))) = replicate 7 (Some (Readable ''{}''))
   \<and> (\<exists>new. fst (snd (performRequest (sample_library []) (sample_client busy_then_missing) []
         sample_request sample_input)) = [] @ new
        \<and> (\<forall>k < length (sentBodies new).
                 sentBodies new ! k = sentBodies new ! 0
                 \<and> (\<exists>b. readRequestBody sample_request = Inr b
                       \<and> sentBodies new ! k = Some (Readable b))))"
proof -
  have run: "sentBodies (fst (snd (performRequest (sample_library []) (sample_client busy_then_missing) []
      sample_request sample_input))) = replicate 7 (Some (Readable ''{}''))"
    by code_simp
  from request_body_replayed[OF triple_collapse] run show ?thesis by blast
qed

section \<open>C7: paging disabled\<close>

text \<open>
  C7: when \<open>DisablePaging\<close> is set, a successful JSON response is returned as
  \<open>performRequest\<close> returned it, whatever its envelope holds, a next link included: the
  history is that of the one request (no further page is fetched), the body is a readable
  stream over the first page's own bytes, and status and envelope are unchanged.
\<close>

theorem paging_disabled_first_page_only:
  assumes "fetched lib c h input h1 rsp st od" and "jsonPage lib rsp b env"
    and "DisablePaging input"
  shows "Get (Suc n) lib c h input = Some (h1, (Some rsp, st, od, None)) \<and> Body rsp = Readable b"
  using Get_last_page[OF assms(1,2), of n] assms(2,3) by (simp add: jsonPage_def)

theorem paging_disabled_first_page_only_witness:
  "Get 1 (sample_library three_docs) (sample_client three_pages) []
       (sample_input\<lparr>DisablePaging := True\<rparr>)
     = Some ([Send (sample_get_sent ''/v1.0/tenant/users'')],
             (Some (json ''page1''), 200, Some (page (Some link2) [''a'', ''b'']), None))
   \<and> Body (json ''page1'') = Readable ''page1''
   \<and> NextLink (page (Some link2) [''a'', ''b'']) = Some link2"
proof -
  have req: "getRequest (sample_library three_docs) (sample_client three_pages)
               (sample_input\<lparr>DisablePaging := True\<rparr>) = Inr (sample_get ''/v1.0/tenant/users'')"
    by code_simp
  have run: "performRequest (sample_library three_docs) (sample_client three_pages) []
               (sample_get ''/v1.0/tenant/users'') (sample_input\<lparr>DisablePaging := True\<rparr>)
             = ([], [Send (sample_get_sent ''/v1.0/tenant/users'')],
                (Some (json ''page1''), 200, Some (page (Some link2) [''a'', ''b'']), None))"
    by code_simp
  have pg: "jsonPage (sample_library three_docs) (json ''page1'') ''page1''
              (page (Some link2) [''a'', ''b''])"
    by code_simp
  have dp: "DisablePaging (sample_input\<lparr>DisablePaging := True\<rparr>)" by simp
  have nl: "NextLink (page (Some link2) [''a'', ''b'']) = Some link2" by code_simp
  from paging_disabled_first_page_only[OF fetchedI[OF req run] pg dp, of 0] nl
  show ?thesis by simp
qed

section \<open>C8: the URL that buildUri builds\<close>

text \<open>
  C8: for every base endpoint that \<open>url.Parse\<close> accepts, \<open>buildUri\<close> returns, with no
  error, the string of a URL that is the parsed endpoint in everything but path and
  query. Its path is a slash and the API version, then a slash and the tenant id exactly
  when \<open>HasTenantId\<close> is set, then a slash and the entity without its leading slashes.
  Its query is the encoding \<open>Values.Encode\<close> gives of the parameters when parameters were
  supplied, and the endpoint's own (none, for a base endpoint) when they were not.
\<close>

theorem buildUri_path_and_query:
  assumes "url_Parse lib (Endpoint c) = Inr base"
  shows "\<exists>u entity k.
           buildUri lib c uri = (url_String lib u, None)
         \<and> Path u = ''/'' @ ApiVersion c
                      @ (if HasTenantId uri then ''/'' @ TenantId c else [])
                      @ ''/'' @ entity
         \<and> Entity uri = replicate k (CHR ''/'') @ entity \<and> \<not> prefix ''/'' entity
         \<and> RawQuery u = (case Params uri of None \<Rightarrow> RawQuery base
                                           | Some ps \<Rightarrow> Values_Encode lib ps)
         \<and> u\<lparr>Path := Path base, RawQuery := RawQuery base\<rparr> = base"
proof -
  let ?entity = "dropWhile (\<lambda>ch. ch = CHR ''/'') (Entity uri)"
  let ?p = "''/'' @ ApiVersion c @ (if HasTenantId uri then ''/'' @ TenantId c else [])
              @ ''/'' @ ?entity"
  let ?q = "case Params uri of None \<Rightarrow> RawQuery base | Some ps \<Rightarrow> Values_Encode lib ps"
  let ?u = "base\<lparr>Path := ?p, RawQuery := ?q\<rparr>"
  from trimLeft_spec[of "Entity uri" "CHR ''/''"] obtain k where
    k: "Entity uri = replicate k (CHR ''/'') @ ?entity" "\<not> prefix ''/'' ?entity"
    by blast
  have b: "buildUri lib c uri = (url_String lib ?u, None)"
    using assms by (simp add: buildUri_def Let_def)
  have "Path ?u = ?p" "RawQuery ?u = ?q" "?u\<lparr>Path := Path base, RawQuery := RawQuery base\<rparr> = base"
    by simp_all
  with b k show ?thesis by blast
qed

theorem buildUri_path_and_query_witness:
  "buildUri (sample_library []) (sample_client (always 200))
      \<lparr>Entity = ''//users'', Params = Some [(''top'', [''5''])], HasTenantId = True\<rparr>
     = (''https://graph.microsoft.com/v1.0/tenant/users?top=5'', None)
   \<and> buildUri (sample_library []) (sample_client (always 200))
      \<lparr>Entity = ''users'', Params = None, HasTenantId = False\<rparr>
     = (''https://graph.microsoft.com/v1.0/users'', None)
   \<and> (\<exists>u entity k.
           buildUri (sample_library []) (sample_client (always 200))
             \<lparr>Entity = ''//users'', Params = Some [(''top'', [''5''])], HasTenantId = True\<rparr>
             = (url_String (sample_library []) u, None)
         \<and> Path u = ''/'' @ ApiVersion (sample_client (always 200))
                      @ (if HasTenantId \<lparr>Entity = ''//users'', Params = Some [(''top'', [''5''])],
                                          HasTenantId = True\<rparr>
                         then ''/'' @ TenantId (sample_client (always 200)) else [])
                      @ ''/'' @ entity
         \<and> Entity \<lparr>Entity = ''//users'', Params = Some [(''top'', [''5''])], HasTenantId = True\<rparr>
             = replicate k (CHR ''/'') @ entity \<and> \<not> prefix ''/'' entity)"
proof -
  have parse: "url_Parse (sample_library []) (Endpoint (sample_client (always 200)))
      = Inr \<lparr>Scheme = ''https'', Opaque = [], Host = ''graph.microsoft.com'', Path = [],
             RawQuery = [], Fragment = []\<rparr>"
    by code_simp
  have v1: "buildUri (sample_library []) (sample_client (always 200))
      \<lparr>Entity = ''//users'', Params = Some [(''top'', [''5''])], HasTenantId = True\<rparr>
     = (''https://graph.microsoft.com/v1.0/tenant/users?top=5'', None)"
    by code_simp
  have v2: "buildUri (sample_library []) (sample_client (always 200))
      \<lparr>Entity = ''users'', Params = None, HasTenantId = False\<rparr>
     = (''https://graph.microsoft.com/v1.0/users'', None)"
    by code_simp
  from buildUri_path_and_query[OF parse,
      of "\<lparr>Entity = ''//users'', Params = Some [(''top'', [''5''])], HasTenantId = True\<rparr>"]
  have "\<exists>u entity k.
           buildUri (sample_library []) (sample_client (always 200))
             \<lparr>Entity = ''//users'', Params = Some [(''top'', [''5''])], HasTenantId = True\<rparr>
             = (url_String (sample_library []) u, None)
         \<and> Path u = ''/'' @ ApiVersion (sample_client (always 200))
                      @ (if HasTenantId \<lparr>Entity = ''//users'', Params = Some [(''top'', [''5''])],
                                          HasTenantId = True\<rparr>
                         then ''/'' @ TenantId (sample_client (always 200)) else [])
                      @ ''/'' @ entity
         \<and> Entity \<lparr>Entity = ''//users'', Params = Some [(''top'', [''5''])], HasTenantId = True\<rparr>
             = replicate k (CHR ''/'') @ entity \<and> \<not> prefix ''/'' entity"
    by blast
  with v1 v2 show ?thesis by blast
qed

section \<open>C9: when a Retry-After header is honoured\<close>

text \<open>
  C9: for an attempt of \<open>performRequest\<close> that is retried, a Retry-After header that is
  missing, or does not parse as a float, or parses as a float that is not greater than
  zero, leaves the default exponential backoff computed in this attempt in effect for the
  next sleep and the multiplier counting on; only a header that parses as a float greater
  than zero, on a response retried for rate limiting, replaces the backoff by the
  header's seconds and resets the multiplier.
\<close>

theorem retry_after_honoured_only_when_positive:
  assumes send: "HttpClient c (if 0 < attempts s then hist s @ [Sleep (backoff s)] else hist s)
                   (req\<lparr>ReqBody := Some (Readable reqBody)\<rparr>) = Inr resp0"
    and dec: "FromResponse lib resp0 = (resp1, o1, None)"
    and cont: "attempt lib c input req reqBody s = Continue r s'"
  shows "((hget (Header resp1) ''Retry-After'' = []
           \<or> ParseFloat lib (hget (Header resp1) ''Retry-After'') = None
           \<or> (\<exists>x. ParseFloat lib (hget (Header resp1) ''Retry-After'') = Some x
                   \<and> \<not> float_gt_zero lib x))
          \<longrightarrow> backoff s' = defaultBackoff (multiplier s + 1)
              \<and> multiplier s' = multiplier s + 1)
       \<and> (\<forall>x. r = RateLimitRetry
               \<and> hget (Header resp1) ''Retry-After'' \<noteq> []
               \<and> ParseFloat lib (hget (Header resp1) ''Retry-After'') = Some x
               \<and> float_gt_zero lib x
          \<longrightarrow> backoff s' = float_to_nanos lib x \<and> multiplier s' = 0)"
proof -
  let ?s1 = "s\<lparr>backoff := defaultBackoff (multiplier s + 1), multiplier := multiplier s + 1,
            hist := (if 0 < attempts s then hist s @ [Sleep (backoff s)] else hist s)
                      @ [Send (req\<lparr>ReqBody := Some (Readable reqBody)\<rparr>)],
            resp := Some resp1, odata := o1\<rparr>"
  from cont have ev: "evaluate lib c input ?s1 resp1 o1 = Continue r s'"
    unfolding attempt_def Let_def by (simp add: send dec)
  from evaluate_Continue_backoff[OF ev]
  have cases: "(r = ConsistencyRetry \<and> backoff s' = defaultBackoff (multiplier s + 1)
                  \<and> multiplier s' = multiplier s + 1)
       \<or> (r = RateLimitRetry
           \<and> (backoff s', multiplier s')
               = retryAfterOverride lib resp1 (defaultBackoff (multiplier s + 1), multiplier s + 1))"
    by simp
  show ?thesis
  proof (intro conjI impI allI)
    assume no: "hget (Header resp1) ''Retry-After'' = []
           \<or> ParseFloat lib (hget (Header resp1) ''Retry-After'') = None
           \<or> (\<exists>x. ParseFloat lib (hget (Header resp1) ''Retry-After'') = Some x
                   \<and> \<not> float_gt_zero lib x)"
    then have "retryAfterOverride lib resp1 (defaultBackoff (multiplier s + 1), multiplier s + 1)
        = (defaultBackoff (multiplier s + 1), multiplier s + 1)"
      by (auto simp: retryAfterOverride_cases)
    with cases show "backoff s' = defaultBackoff (multiplier s + 1)" by auto
    from no have "retryAfterOverride lib resp1 (defaultBackoff (multiplier s + 1), multiplier s + 1)
        = (defaultBackoff (multiplier s + 1), multiplier s + 1)"
      by (auto simp: retryAfterOverride_cases)
    with cases show "multiplier s' = multiplier s + 1" by auto
  next
    fix x
    assume yes: "r = RateLimitRetry
               \<and> hget (Header resp1) ''Retry-After'' \<noteq> []
               \<and> ParseFloat lib (hget (Header resp1) ''Retry-After'') = Some x
               \<and> float_gt_zero lib x"
    then have "retryAfterOverride lib resp1 (defaultBackoff (multiplier s + 1), multiplier s + 1)
        = (float_to_nanos lib x, 0)"
      by (simp add: retryAfterOverride_cases)
    with cases yes show "backoff s' = float_to_nanos lib x" by auto
    from yes have "retryAfterOverride lib resp1 (defaultBackoff (multiplier s + 1), multiplier s + 1)
        = (float_to_nanos lib x, 0)"
      by (simp add: retryAfterOverride_cases)
    with cases yes show "multiplier s' = 0" by auto
  qed
qed

theorem retry_after_honoured_only_when_positive_witness:
  "attempt (sample_library []) (sample_client retry_after_0) sample_input sample_sent ''{}''
     (initial_state [])
     = Continue RateLimitRetry
         \<lparr>attempts = 1, backoff = 2 * Second, multiplier = 1, status = 429,
          resp = Some ((plain 429)\<lparr>Header := [(''Retry-After'', [''0''])]\<rparr>), odata = None,
          hist = [Send sample_sent]\<rparr>
   \<and> backoff \<lparr>attempts = 1, backoff = 2 * Second, multiplier = 1, status = 429,
          resp = Some ((plain 429)\<lparr>Header := [(''Retry-After'', [''0''])]\<rparr>), odata = None,
          hist = [Send sample_sent]\<rparr> = defaultBackoff (multiplier (initial_state []) + 1)
   \<and> multiplier \<lparr>attempts = 1, backoff = 2 * Second, multiplier = 1, status = 429,
          resp = Some ((plain 429)\<lparr>Header := [(''Retry-After'', [''0''])]\<rparr>), odata = None,
          hist = [Send sample_sent]\<rparr> = multiplier (initial_state []) + 1"
proof -
  let ?r = "(plain 429)\<lparr>Header := [(''Retry-After'', [''0''])]\<rparr>"
  have send: "HttpClient (sample_client retry_after_0)
       (if 0 < attempts (initial_state [])
        then hist (initial_state []) @ [Sleep (backoff (initial_state []))]
        else hist (initial_state []))
       (sample_sent\<lparr>ReqBody := Some (Readable ''{}'')\<rparr>) = Inr ?r"
    by code_simp
  have dec: "FromResponse (sample_library []) ?r = (?r, None, None)"
    by code_simp
  have cont: "attempt (sample_library []) (sample_client retry_after_0) sample_input sample_sent ''{}''
     (initial_state [])
     = Continue RateLimitRetry
         \<lparr>attempts = 1, backoff = 2 * Second, multiplier = 1, status = 429,
          resp = Some ?r, odata = None, hist = [Send sample_sent]\<rparr>"
    by code_simp
  have zero: "ParseFloat (sample_library []) (hget (Header ?r) ''Retry-After'') = Some 0"
    "\<not> float_gt_zero (sample_library []) 0"
    by code_simp+
  from retry_after_honoured_only_when_positive[OF send dec cont] zero cont
  show ?thesis by blast
qed

section \<open>C10: responses that are not JSON\<close>

text \<open>
  C10: for a successful GET whose response has a Content-Type that, in lower case, does
  not begin with application/json, \<open>Get\<close> returns the response, the status and the
  envelope of \<open>performRequest\<close> as they are, and the history is that of the one request:
  the body is not read, no page is fetched and nothing is merged, whatever
  \<open>DisablePaging\<close> is and whatever the body holds.
\<close>

theorem not_json_unchanged:
  assumes "fetched lib c h input h1 rsp st od"
    and "\<not> prefix ''application/json'' (ToLower lib (hget (Header rsp) ''Content-Type''))"
  shows "Get (Suc n) lib c h input = Some (h1, (Some rsp, st, od, None))"
  using assms unfolding fetched_def
  by (auto simp: Get.simps)

theorem not_json_unchanged_witness:
  "Get 1 (sample_library three_docs) (sample_client plain_text) [] sample_input
     = Some ([Send (sample_get_sent ''/v1.0/tenant/users'')],
             (Some \<lparr>StatusCode = 200, Header = [(''Content-Type'', [''text/plain''])],
                    Body = Readable ''page1''\<rparr>, 200, None, None))"
proof -
  have req: "getRequest (sample_library three_docs) (sample_client plain_text) sample_input
               = Inr (sample_get ''/v1.0/tenant/users'')"
    by code_simp
  have run: "performRequest (sample_library three_docs) (sample_client plain_text) []
               (sample_get ''/v1.0/tenant/users'') sample_input
             = ([], [Send (sample_get_sent ''/v1.0/tenant/users'')],
                (Some \<lparr>StatusCode = 200, Header = [(''Content-Type'', [''text/plain''])],
                    Body = Readable ''page1''\<rparr>, 200, None, None))"
    by code_simp
  have ct: "\<not> prefix ''application/json'' (ToLower (sample_library three_docs)
       (hget (Header \<lparr>StatusCode = 200, Header = [(''Content-Type'', [''text/plain''])],
                    Body = Readable ''page1''\<rparr>) ''Content-Type''))"
    by code_simp
  from not_json_unchanged[OF fetchedI[OF req run] ct, of 0] show ?thesis by simp
qed

end
